theory Spec2Isabelle
  imports Complex_Main "HOL-Library.AList" "HOL-Library.Multiset"
begin

section \<open>JavaScript numbers\<close>

text \<open>
  A JavaScript \<open>number\<close> is modelled as a real or one of the three non-finite values.
  Arithmetic on finite values is exact (rounding and overflow of IEEE doubles are not
  modelled); the non-finite values exist because the code tests \<open>Number.isFinite\<close>.
\<close>

datatype jsnum = Num real | NaN | PosInfinity | NegInfinity

fun isFinite :: "jsnum \<Rightarrow> bool" where
  "isFinite (Num _) = True"
| "isFinite _ = False"

section \<open>Layout constants\<close>

definition baseNodeWidth :: real where "baseNodeWidth = 260"
definition baseNodeHeight :: real where "baseNodeHeight = 200"
definition MIN_READABLE_NODE_PIXEL_WIDTH_NEAR :: real where
  "MIN_READABLE_NODE_PIXEL_WIDTH_NEAR = 110"
definition MIN_READABLE_NODE_PIXEL_WIDTH_FAR :: real where
  "MIN_READABLE_NODE_PIXEL_WIDTH_FAR = 68"
definition MIN_READABLE_NODE_COUNT :: real where "MIN_READABLE_NODE_COUNT = 80"
definition MAX_READABLE_NODE_COUNT :: real where "MAX_READABLE_NODE_COUNT = 600"
definition AUTO_MAXIMUM_ZOOM_CAP :: real where "AUTO_MAXIMUM_ZOOM_CAP = 12"
definition AUTO_MINIMUM_ZOOM_FLOOR :: real where "AUTO_MINIMUM_ZOOM_FLOOR = 4 / 100"

lemmas layout_consts =
  baseNodeWidth_def baseNodeHeight_def MIN_READABLE_NODE_PIXEL_WIDTH_NEAR_def
  MIN_READABLE_NODE_PIXEL_WIDTH_FAR_def MIN_READABLE_NODE_COUNT_def
  MAX_READABLE_NODE_COUNT_def AUTO_MAXIMUM_ZOOM_CAP_def AUTO_MINIMUM_ZOOM_FLOOR_def

section \<open>computeMinReadableNodePixelWidth\<close>

fun computeMinReadableNodePixelWidth :: "jsnum \<Rightarrow> real" where
  "computeMinReadableNodePixelWidth (Num cnt) =
     (if cnt \<le> 0 then MIN_READABLE_NODE_PIXEL_WIDTH_NEAR
      else if cnt \<le> MIN_READABLE_NODE_COUNT then MIN_READABLE_NODE_PIXEL_WIDTH_NEAR
      else if cnt \<ge> MAX_READABLE_NODE_COUNT then MIN_READABLE_NODE_PIXEL_WIDTH_FAR
      else (let ratio = (cnt - MIN_READABLE_NODE_COUNT) /
                        (MAX_READABLE_NODE_COUNT - MIN_READABLE_NODE_COUNT)
            in MIN_READABLE_NODE_PIXEL_WIDTH_NEAR -
               ratio * (MIN_READABLE_NODE_PIXEL_WIDTH_NEAR - MIN_READABLE_NODE_PIXEL_WIDTH_FAR)))"
| "computeMinReadableNodePixelWidth _ = MIN_READABLE_NODE_PIXEL_WIDTH_NEAR"

section \<open>adjustInitialZoomForNodeCount\<close>








section \<open>Layout: overlap test and grid fallback\<close>

text \<open>
  A node of the graph, as far as the layout code reads it: its \<open>layout\<close> rectangle.
  The graph's node collection is a list in iteration order. \<open>setNodeCenter\<close> is the
  diagram library's operation; it moves the rectangle so that its centre is the given
  point and keeps its size.
\<close>

record node =
  lx :: real
  ly :: real
  lwidth :: real
  lheight :: real

definition center :: "node \<Rightarrow> real \<times> real" where
  "center nd = (lx nd + lwidth nd / 2, ly nd + lheight nd / 2)"

definition setNodeCenter :: "node \<Rightarrow> real \<times> real \<Rightarrow> node" where
  "setNodeCenter nd p = nd\<lparr>lx := fst p - lwidth nd / 2, ly := snd p - lheight nd / 2\<rparr>"

text \<open>
  The running minimum and maximum of a loop that starts from \<open>Infinity\<close> and
  \<open>-Infinity\<close>. Both are only used on graphs with at least two nodes, where the start
  value never survives; on the empty list the model returns 0.
\<close>

fun minOf :: "real list \<Rightarrow> real" where
  "minOf [] = 0"
| "minOf (v # vs) = fold min vs v"

fun maxOf :: "real list \<Rightarrow> real" where
  "maxOf [] = 0"
| "maxOf (v # vs) = fold max vs v"

definition graphBoundsTooTight :: "node list \<Rightarrow> bool" where
  "graphBoundsTooTight nodes =
     (if length nodes \<le> 3 then False
      else
        (let minX = minOf (map lx nodes);
             minY = minOf (map ly nodes);
             maxX = maxOf (map (\<lambda>nd. lx nd + lwidth nd) nodes);
             maxY = maxOf (map (\<lambda>nd. ly nd + lheight nd) nodes);
             width = max (maxX - minX) 1;
             height = max (maxY - minY) 1;
             scaleFactor = max 1 (sqrt (real (length nodes)) * (12 / 100));
             minWidth = baseNodeWidth * (14 / 10) * scaleFactor;
             minHeight = baseNodeHeight * (14 / 10) * scaleFactor;
             boundingArea = width * height;
             avgAreaPerNode = boundingArea / real (length nodes);
             targetAreaPerNode = baseNodeWidth * baseNodeHeight * (12 / 10)
         in width < minWidth \<or> height < minHeight \<or> avgAreaPerNode < targetAreaPerNode))"

definition gridCols :: "nat \<Rightarrow> nat" where
  "gridCols n = nat \<lceil>sqrt (real n)\<rceil>"

definition gridRows :: "nat \<Rightarrow> nat" where
  "gridRows n = nat \<lceil>real n / real (gridCols n)\<rceil>"

definition spacingX :: real where "spacingX = baseNodeWidth * (23 / 10)"
definition spacingY :: real where "spacingY = baseNodeHeight * 2"

definition startX :: "nat \<Rightarrow> real" where
  "startX n = - ((real (gridCols n) - 1) * spacingX) / 2"

definition startY :: "nat \<Rightarrow> real" where
  "startY n = - ((real (gridRows n) - 1) * spacingY) / 2"

text \<open>
  \<open>index % cols\<close> and \<open>Math.floor(index / cols)\<close> are \<open>mod\<close> and \<open>div\<close> on the
  naturals; the function only reaches them with at least two nodes, where \<open>cols\<close> is
  positive.
\<close>

definition spreadNodesInGrid :: "node list \<Rightarrow> node list" where
  "spreadNodesInGrid nodes =
     (if length nodes \<le> 1 then nodes
      else
        (let n = length nodes; cols = gridCols n
         in map (\<lambda>(index, nd).
                   setNodeCenter nd
                     (startX n + real (index mod cols) * spacingX,
                      startY n + real (index div cols) * spacingY))
                (enumerate 0 nodes)))"

definition expandGraphExtent :: "node list \<Rightarrow> real \<Rightarrow> node list" where
  "expandGraphExtent nodes minGap =
     (if length nodes \<le> 1 then nodes
      else
        (let cxs = map (\<lambda>nd. fst (center nd)) nodes;
             cys = map (\<lambda>nd. snd (center nd)) nodes;
             minX = minOf cxs; minY = minOf cys;
             maxX = maxOf cxs; maxY = maxOf cys;
             width = max (maxX - minX) 1;
             height = max (maxY - minY) 1;
             sqrtN = sqrt (real (length nodes));
             targetWidth = max ((baseNodeWidth + minGap) * sqrtN * (125 / 100))
                               (minGap * (sqrtN + 14 / 10));
             targetHeight = max ((baseNodeHeight + minGap * (5 / 10)) * sqrtN * (125 / 100))
                                (minGap * (7 / 10) * (sqrtN + 14 / 10));
             factor = max (max (targetWidth / width) (targetHeight / height)) 1
         in if factor \<le> 112 / 100 then nodes
            else
              (let centerX = (minX + maxX) / 2;
                   centerY = (minY + maxY) / 2
               in map (\<lambda>nd. setNodeCenter nd
                              (centerX + (fst (center nd) - centerX) * factor,
                               centerY + (snd (center nd) - centerY) * factor))
                      nodes)))"

text \<open>
  \<open>applySimpleLayout\<close>. Its three local constants are functions of the scale refs.
  The organic layout and the component layout are algorithms of the diagram library; they
  are parameters here: \<open>organicLayout l d\<close> with preferred edge length \<open>l\<close> and minimum
  node distance \<open>d\<close>, \<open>componentLayout g\<close> with minimum component distance \<open>g\<close>, each a
  function on the node list and otherwise arbitrary. The component is \<open>None\<close> before it
  is mounted.
\<close>

definition preferredLength :: "real \<Rightarrow> real \<Rightarrow> real" where
  "preferredLength nodeScale edgeLenScale =
     max (max (max (baseNodeWidth * (nodeScale + 35 / 100))
                   (baseNodeHeight * (nodeScale + 25 / 100))) 220)
         (180 * edgeLenScale)"

definition minimumDistance :: "real \<Rightarrow> real" where
  "minimumDistance nodeScale =
     max (max 180 (baseNodeWidth * nodeScale * (9 / 10))) (baseNodeHeight * nodeScale * (7 / 10))"

definition componentGap :: "real \<Rightarrow> real \<Rightarrow> real" where
  "componentGap nodeScale clusterGapScale =
     max (minimumDistance nodeScale * (22 / 10)) (320 * clusterGapScale)"

definition applySimpleLayout ::
  "(real \<Rightarrow> real \<Rightarrow> node list \<Rightarrow> node list) \<Rightarrow> (real \<Rightarrow> node list \<Rightarrow> node list) \<Rightarrow>
   real \<Rightarrow> real \<Rightarrow> real \<Rightarrow> node list option \<Rightarrow> node list option" where
  "applySimpleLayout organicLayout componentLayout nodeScale edgeLenScale clusterGapScale gcOpt =
     (case gcOpt of
        None \<Rightarrow> None
      | Some graph \<Rightarrow>
          if length graph = 0 then Some graph
          else
            (let g1 = organicLayout (preferredLength nodeScale edgeLenScale)
                        (minimumDistance nodeScale) graph;
                 g2 = (if length g1 > 1
                       then componentLayout (componentGap nodeScale clusterGapScale) g1 else g1);
                 g3 = expandGraphExtent g2 (componentGap nodeScale clusterGapScale)
             in if graphBoundsTooTight g3 then Some (spreadNodesInGrid g3) else Some g3))"

section \<open>Strings and JSON values\<close>

text \<open>
  Strings are byte strings. \<open>trim\<close> removes the ASCII white space and line terminators
  (tab, line feed, vertical tab, form feed, carriage return, space) from both ends;
  \<open>toLowerCase\<close> maps the ASCII capitals. The other Unicode white space and case pairs of
  the JavaScript functions are not modelled.
\<close>

definition isSpace :: "char \<Rightarrow> bool" where
  "isSpace c = (c \<in> set [CHR 0x09, CHR 0x0A, CHR 0x0B, CHR 0x0C, CHR 0x0D, CHR '' ''])"

definition trim :: "string \<Rightarrow> string" where
  "trim s = rev (dropWhile isSpace (rev (dropWhile isSpace s)))"

definition lowerChar :: "char \<Rightarrow> char" where
  "lowerChar c =
     (if (65 :: nat) \<le> of_char c \<and> (of_char c :: nat) \<le> 90
      then char_of ((of_char c :: nat) + 32) else c)"

definition toLowerCase :: "string \<Rightarrow> string" where
  "toLowerCase s = map lowerChar s"


definition endsWith :: "string \<Rightarrow> string \<Rightarrow> bool" where
  "endsWith s p = (length p \<le> length s \<and> drop (length s - length p) s = p)"

text \<open>
  A JavaScript value as it comes out of a JSON file, with \<open>undefined\<close> added for
  missing properties. An object is the list of its own properties in enumeration order.
\<close>

datatype jsval =
    JUndefined
  | JNull
  | JBool bool
  | JNum jsnum
  | JStr string
  | JArr "jsval list"
  | JObj "(string \<times> jsval) list"

text \<open>
  \<open>getProp v k\<close> is \<open>v[k]\<close> (and \<open>v?.[k]\<close>) for the property names this code uses:
  none of them is an array index, \<open>length\<close>, or a property of a built-in prototype, so
  only a plain object can have one. Reading a property of \<open>null\<close> or \<open>undefined\<close>
  throws; the functions below guard those reads where the source does and fail where it
  does not.
\<close>

fun getProp :: "jsval \<Rightarrow> string \<Rightarrow> jsval" where
  "getProp (JObj kvs) k = (case map_of kvs k of Some v \<Rightarrow> v | None \<Rightarrow> JUndefined)"
| "getProp _ k = JUndefined"

fun isNullish :: "jsval \<Rightarrow> bool" where
  "isNullish JUndefined = True"
| "isNullish JNull = True"
| "isNullish _ = False"

fun truthy :: "jsval \<Rightarrow> bool" where
  "truthy JUndefined = False"
| "truthy JNull = False"
| "truthy (JBool b) = b"
| "truthy (JNum (Num r)) = (r \<noteq> 0)"
| "truthy (JNum NaN) = False"
| "truthy (JNum _) = True"
| "truthy (JStr s) = (s \<noteq> [])"
| "truthy (JArr _) = True"
| "truthy (JObj _) = True"

text \<open>\<open>a ?? b\<close>.\<close>

definition nullish_or :: "jsval \<Rightarrow> jsval \<Rightarrow> jsval" where
  "nullish_or a b = (if isNullish a then b else a)"

section \<open>buildManifestEntries\<close>













section \<open>Component state: per-file settings and filters\<close>

datatype FilterMode = Highlight | Filter

record FilterSettings =
  fsFilterMode :: FilterMode
  fsNodeFilter :: "string option"
  fsRelFilter :: "string option"

record ViewSettings =
  vsNodeScale :: real
  vsEdgeLenScale :: real
  vsClusterGapScale :: real

text \<open>
  What the filter code reads of a node's and an edge's \<open>tag\<close>. The \<open>type\<close> of a node
  is of unknown type in the source and only used through \<open>toString()\<close>; it is kept as
  that string. A field is \<open>None\<close> when the property is absent, \<open>null\<close> or \<open>undefined\<close>.
\<close>

record NodeData =
  ndType :: "string option"
  ndLabel :: "string option"
  ndId :: "string option"

record EdgeData =
  edRelationship :: "string option"
  edLabel :: "string option"

text \<open>
  The styles the component assigns, by the function that builds them: \<open>createNodeStyle\<close>
  and \<open>createEdgeStyle\<close> (\<open>Normal\<close>), \<open>dimNodeStyle\<close> and \<open>dimEdgeStyle\<close> (\<open>Dimmed\<close>),
  the transparent style of filter mode, and the two styles of
  \<open>highlightSelectedEdgeOnTop\<close>.
\<close>

datatype ItemStyle = Normal | Dimmed | Transparent | ExtraDimmed | Emphasized

record INode =
  nodeTag :: "NodeData option"
  nodeStyle :: ItemStyle

record IEdge =
  edgeTag :: "EdgeData option"
  edgeStyle :: ItemStyle

record IGraph =
  graphNodes :: "INode list"
  graphEdges :: "IEdge list"

text \<open>
  The refs and module-level variables of the component that the settings and filter code
  uses. \<open>graphComponent\<close> is \<open>None\<close> before the component is mounted. \<open>selectedIEdge\<close>
  is the position in \<open>graph.edges\<close> of the edge that \<open>getSelectedIEdge()\<close> returns while
  \<open>selectedEdge\<close> is set, and \<open>None\<close> otherwise.
\<close>

record Component =
  selectedFile :: string
  lastLoadedFile :: "string option"
  filterSettingsByFile :: "string \<rightharpoonup> FilterSettings"
  settingsByFile :: "string \<rightharpoonup> ViewSettings"
  filterMode :: FilterMode
  activeNodeLabelFilter :: "string option"
  activeRelTypeFilter :: "string option"
  nodeScale :: real
  edgeLenScale :: real
  clusterGapScale :: real
  graphComponent :: "IGraph option"
  selectedIEdge :: "nat option"

text \<open>A \<open>string | null\<close> is truthy when it is a non-empty string.\<close>

definition truthyStr :: "string option \<Rightarrow> bool" where
  "truthyStr v = (case v of Some s \<Rightarrow> s \<noteq> [] | None \<Rightarrow> False)"

definition ensureFilterSettingsFor :: "string \<Rightarrow> Component \<Rightarrow> Component" where
  "ensureFilterSettingsFor f st =
     (if f = [] then st
      else case filterSettingsByFile st f of
             Some saved \<Rightarrow>
               st\<lparr>filterMode := fsFilterMode saved,
                  activeNodeLabelFilter := fsNodeFilter saved,
                  activeRelTypeFilter := fsRelFilter saved\<rparr>
           | None \<Rightarrow>
               st\<lparr>filterMode := Highlight,
                  activeNodeLabelFilter := None,
                  activeRelTypeFilter := None\<rparr>)"

definition saveFilterSettingsForCurrent :: "Component \<Rightarrow> Component" where
  "saveFilterSettingsForCurrent st =
     (let f = selectedFile st
      in if f = [] then st
         else st\<lparr>filterSettingsByFile := (filterSettingsByFile st)
                  (f \<mapsto> \<lparr>fsFilterMode = filterMode st,
                          fsNodeFilter = activeNodeLabelFilter st,
                          fsRelFilter = activeRelTypeFilter st\<rparr>)\<rparr>)"

definition ensureSettingsFor :: "string \<Rightarrow> Component \<Rightarrow> Component" where
  "ensureSettingsFor f st =
     (if f = [] then st
      else
        (let st1 = (if settingsByFile st f = None
                    then st\<lparr>settingsByFile := (settingsByFile st)
                             (f \<mapsto> \<lparr>vsNodeScale = 1, vsEdgeLenScale = 1,
                                     vsClusterGapScale = 12 / 10\<rparr>)\<rparr>
                    else st)
         in case settingsByFile st1 f of
              Some s \<Rightarrow> st1\<lparr>nodeScale := vsNodeScale s, edgeLenScale := vsEdgeLenScale s,
                             clusterGapScale := vsClusterGapScale s\<rparr>
            | None \<Rightarrow> st1))"

definition saveSettingsForCurrent :: "Component \<Rightarrow> Component" where
  "saveSettingsForCurrent st =
     (let f = selectedFile st
      in if f = [] then st
         else st\<lparr>settingsByFile := (settingsByFile st)
                  (f \<mapsto> \<lparr>vsNodeScale = nodeScale st, vsEdgeLenScale = edgeLenScale st,
                          vsClusterGapScale = clusterGapScale st\<rparr>)\<rparr>)"

text \<open>
  The callback of \<open>watch(selectedFile, file => ...)\<close>, up to the point where it starts the
  asynchronous load of the graph. The framework runs a watcher's callback after the ref
  has changed: inside the callback \<open>selectedFile.value\<close> is already the new \<open>file\<close>.
  \<open>selectFile\<close> is the change of the ref through the dataset selector followed by the
  callback; assigning the value the ref already has triggers nothing.
\<close>

definition watchSelectedFile :: "string \<Rightarrow> Component \<Rightarrow> Component" where
  "watchSelectedFile f st =
     (let st1 = (if truthyStr (lastLoadedFile st) then saveFilterSettingsForCurrent st else st)
      in if f \<noteq> [] then ensureFilterSettingsFor f (ensureSettingsFor f st1) else st1)"

definition selectFile :: "string \<Rightarrow> Component \<Rightarrow> Component" where
  "selectFile f st =
     (if f = selectedFile st then st else watchSelectedFile f (st\<lparr>selectedFile := f\<rparr>))"

section \<open>applyFilterHighlight\<close>

definition nodeGroup :: "NodeData option \<Rightarrow> string" where
  "nodeGroup tg =
     (case tg of
        None \<Rightarrow> []
      | Some t \<Rightarrow>
          (case ndType t of
             Some ty \<Rightarrow> ty
           | None \<Rightarrow> (case ndLabel t of
                        Some l \<Rightarrow> l
                      | None \<Rightarrow> (case ndId t of Some i \<Rightarrow> i | None \<Rightarrow> []))))"

definition edgeType :: "EdgeData option \<Rightarrow> string" where
  "edgeType tg =
     trim (case tg of
             None \<Rightarrow> []
           | Some t \<Rightarrow>
               (case edRelationship t of
                  Some r \<Rightarrow> r
                | None \<Rightarrow> (case edLabel t of Some l \<Rightarrow> l | None \<Rightarrow> [])))"

definition nodeMatches :: "string option \<Rightarrow> INode \<Rightarrow> bool" where
  "nodeMatches nodeFilter nd =
     (if truthyStr nodeFilter then Some (nodeGroup (nodeTag nd)) = nodeFilter else True)"

definition edgeMatches :: "string option \<Rightarrow> IEdge \<Rightarrow> bool" where
  "edgeMatches relFilter e =
     (if truthyStr relFilter then Some (edgeType (edgeTag e)) = relFilter else True)"








section \<open>normalizeGraphPayload\<close>

text \<open>
  \<open>String(idx)\<close> for a loop counter: the decimal digits.
\<close>

definition digit :: "nat \<Rightarrow> char" where
  "digit d = char_of (48 + d)"

function decimal :: "nat \<Rightarrow> string" where
  "decimal n = (if n < 10 then [digit n] else decimal (n div 10) @ [digit (n mod 10)])"
  by pat_completeness auto
termination
  by (relation "measure (\<lambda>n. n)") auto

declare decimal.simps [simp del]

fun joinComma :: "string list \<Rightarrow> string" where
  "joinComma [] = []"
| "joinComma [s] = s"
| "joinComma (s # t # ss) = s @ '','' @ joinComma (t # ss)"

text \<open>
  \<open>String(v)\<close> and template interpolation. The text of a number is the host's
  \<open>Number::toString\<close>, the parameter \<open>numStr\<close> of everything below. An array prints its
  elements separated by commas, with nothing for \<open>null\<close> and \<open>undefined\<close>.
\<close>

fun jsString :: "(jsnum \<Rightarrow> string) \<Rightarrow> jsval \<Rightarrow> string" where
  "jsString numStr JUndefined = ''undefined''"
| "jsString numStr JNull = ''null''"
| "jsString numStr (JBool b) = (if b then ''true'' else ''false'')"
| "jsString numStr (JNum n) = numStr n"
| "jsString numStr (JStr s) = s"
| "jsString numStr (JArr xs) =
     joinComma (map (\<lambda>x. if isNullish x then [] else jsString numStr x) xs)"
| "jsString numStr (JObj kvs) = ''[object Object]''"

text \<open>The local helper \<open>toStr\<close>.\<close>

definition toStr :: "(jsnum \<Rightarrow> string) \<Rightarrow> jsval \<Rightarrow> string" where
  "toStr numStr v = (if isNullish v then [] else jsString numStr v)"

text \<open>\<open>item !== null && typeof item === 'object'\<close>.\<close>

fun isObjectType :: "jsval \<Rightarrow> bool" where
  "isObjectType (JObj _) = True"
| "isObjectType (JArr _) = True"
| "isObjectType _ = False"

fun isString :: "jsval \<Rightarrow> bool" where
  "isString (JStr _) = True"
| "isString _ = False"

definition isCanonicalNodeArray :: "jsval \<Rightarrow> bool" where
  "isCanonicalNodeArray nodesRaw =
     (case nodesRaw of
        JArr items \<Rightarrow> list_all (\<lambda>item. isObjectType item \<and> isString (getProp item ''id'')) items
      | _ \<Rightarrow> False)"

definition isCanonicalEdgeArray :: "jsval \<Rightarrow> bool" where
  "isCanonicalEdgeArray edgesRaw =
     (case edgesRaw of
        JArr items \<Rightarrow>
          list_all (\<lambda>item. isObjectType item \<and>
                      (isString (getProp item ''source'') \<or> isString (getProp item ''from'')) \<and>
                      (isString (getProp item ''target'') \<or> isString (getProp item ''to''))) items
      | _ \<Rightarrow> False)"

text \<open>The local helper \<open>preferKeys\<close>.\<close>

fun preferKeys :: "jsval \<Rightarrow> string list \<Rightarrow> jsval" where
  "preferKeys ob [] = JUndefined"
| "preferKeys ob (k # ks) =
     (if truthy ob \<and> \<not> isNullish (getProp ob k) then getProp ob k else preferKeys ob ks)"

text \<open>
  \<open>Object.keys\<close> as the id detection uses it. The keys of an array or a string are index
  digits, which match none of the id patterns, so they are left out.
\<close>

fun objectKeys :: "jsval \<Rightarrow> string list" where
  "objectKeys (JObj kvs) = map fst kvs"
| "objectKeys _ = []"

text \<open>The test \<open>/(^|[_-])id$/i\<close>.\<close>

definition idSuffix :: "string \<Rightarrow> bool" where
  "idSuffix k =
     (let l = toLowerCase k
      in endsWith l ''id'' \<and>
         (length l = 2 \<or> l ! (length l - 3) = CHR ''_'' \<or> l ! (length l - 3) = CHR ''-''))"

text \<open>
  The \<open>value\<close> of the local helper \<open>findIdKey\<close> (its \<open>key\<close> is not used), for a type
  that is a string.
\<close>

definition findIdKey :: "jsval \<Rightarrow> string \<Rightarrow> jsval" where
  "findIdKey obj ty =
     (if \<not> truthy obj \<or> \<not> isObjectType obj then JNull
      else
        (let lowerType = (if ty \<noteq> [] then toLowerCase ty else []);
             keys = objectKeys obj
         in case find (\<lambda>k. k \<in> set keys) [''id'', ''ID'', ''_id''] of
              Some k \<Rightarrow> getProp obj k
            | None \<Rightarrow>
                (case (if lowerType \<noteq> []
                       then find (\<lambda>k. toLowerCase k = lowerType @ ''_id'' \<or>
                                       toLowerCase k = lowerType @ ''id'') keys
                       else None) of
                   Some spec \<Rightarrow>
                     if spec \<noteq> [] then getProp obj spec
                     else (case find idSuffix keys of
                             Some anyId \<Rightarrow> if anyId \<noteq> [] then getProp obj anyId else JNull
                           | None \<Rightarrow> JNull)
                 | None \<Rightarrow>
                     (case find idSuffix keys of
                        Some anyId \<Rightarrow> if anyId \<noteq> [] then getProp obj anyId else JNull
                      | None \<Rightarrow> JNull))))"

text \<open>
  The own enumerable properties that an object spread \<open>{...v}\<close> copies.
\<close>

fun spreadProps :: "jsval \<Rightarrow> (string \<times> jsval) list" where
  "spreadProps (JObj kvs) = kvs"
| "spreadProps (JArr xs) = zip (map decimal [0..<length xs]) xs"
| "spreadProps (JStr s) = zip (map decimal [0..<length s]) (map (\<lambda>c. JStr [c]) s)"
| "spreadProps _ = []"

text \<open>
  \<open>{ ...n, id, label, type }\<close>: an assignment to a property that exists keeps its place,
  a new property is appended.
\<close>

definition withIdLabelType :: "jsval \<Rightarrow> jsval \<Rightarrow> jsval \<Rightarrow> jsval \<Rightarrow> jsval" where
  "withIdLabelType n globalId label ty =
     JObj (AList.update ''type'' ty
            (AList.update ''label'' label
              (AList.update ''id'' globalId (spreadProps n))))"

text \<open>
  The maps of the array case. A \<open>Map\<close> is the list of its entries in insertion order;
  \<open>set\<close> replaces the value of a present key in place and appends a new key.
\<close>

record CaseAMaps =
  idToGlobal :: "(string \<times> string) list"
  typeToMap :: "(string \<times> (string \<times> string) list) list"
  plainMap :: "(string \<times> string) list"
  hasConflict :: "string list"

text \<open>
  The locals \<open>type\<close>, \<open>idKey\<close> and \<open>label\<close> of the node loop of the array case, for
  the element \<open>n\<close> and the counter value \<open>idx\<close> after its increment.
\<close>

definition caseAType :: "(jsnum \<Rightarrow> string) \<Rightarrow> jsval \<Rightarrow> string" where
  "caseAType numStr n =
     (let ty0 = toStr numStr (preferKeys n [''type'', ''Type'', ''nodeType'', ''labelType'', ''label'', ''Label''])
      in if ty0 \<noteq> [] then ty0 else ''Node'')"

definition caseAIdKey :: "(jsnum \<Rightarrow> string) \<Rightarrow> nat \<Rightarrow> jsval \<Rightarrow> string" where
  "caseAIdKey numStr idx n =
     (let idValRaw = findIdKey n (caseAType numStr n)
      in if \<not> isNullish idValRaw then toStr numStr idValRaw else decimal idx)"

definition caseALabel :: "(jsnum \<Rightarrow> string) \<Rightarrow> nat \<Rightarrow> jsval \<Rightarrow> string" where
  "caseALabel numStr idx n =
     (let label0 = toStr numStr (preferKeys n [''name'', ''Name'', ''title'', ''Title'', ''label'', ''Label''])
      in if label0 \<noteq> [] then label0 else caseAType numStr n @ '' '' @ caseAIdKey numStr idx n)"

text \<open>
  One iteration of the node loop of the array case. Reading \<open>n.id\<close> throws on \<open>null\<close>.
\<close>

definition caseANode ::
  "(jsnum \<Rightarrow> string) \<Rightarrow> nat \<Rightarrow> jsval \<Rightarrow> jsval list \<times> CaseAMaps \<Rightarrow> (jsval list \<times> CaseAMaps) option" where
  "caseANode numStr idx n acc =
     (let ty = caseAType numStr n;
          idKey = caseAIdKey numStr idx n;
          globalId = ty @ '':'' @ idKey;
          label = caseALabel numStr idx n;
          nodes1 = fst acc @ [withIdLabelType n (JStr globalId) (JStr label) (JStr ty)];
          m = snd acc
      in if isNullish n then None
         else
           (let m1 = (if \<not> isNullish (getProp n ''id'') \<and> toStr numStr (getProp n ''id'') \<noteq> idKey
                      then m\<lparr>idToGlobal := AList.update (toStr numStr (getProp n ''id'')) globalId
                                              (idToGlobal m)\<rparr>
                      else m);
                forType = (case map_of (typeToMap m1) ty of Some t \<Rightarrow> t | None \<Rightarrow> []);
                m2 = m1\<lparr>typeToMap := AList.update ty (AList.update idKey globalId forType) (typeToMap m1)\<rparr>;
                m3 = (if map_of (plainMap m2) idKey \<noteq> None \<and> map_of (plainMap m2) idKey \<noteq> Some globalId
                      then m2\<lparr>hasConflict := List.insert idKey (hasConflict m2)\<rparr>
                      else m2\<lparr>plainMap := AList.update idKey globalId (plainMap m2)\<rparr>)
            in Some (nodes1, m3)))"

fun caseANodes ::
  "(jsnum \<Rightarrow> string) \<Rightarrow> nat \<Rightarrow> jsval list \<Rightarrow> jsval list \<times> CaseAMaps \<Rightarrow> (jsval list \<times> CaseAMaps) option" where
  "caseANodes numStr idx [] acc = Some acc"
| "caseANodes numStr idx (n # rest) acc =
     (case caseANode numStr (idx + 1) n acc of
        None \<Rightarrow> None
      | Some acc' \<Rightarrow> caseANodes numStr (idx + 1) rest acc')"

text \<open>
  A \<open>string | null\<close> local of the edge loop: falsy when \<open>null\<close> or empty; \<open>a ?? b\<close>.
\<close>

definition orElse :: "string option \<Rightarrow> string option \<Rightarrow> string option" where
  "orElse a b = (case a of None \<Rightarrow> b | Some _ \<Rightarrow> a)"

text \<open>\<open>m.get(k)\<close> when the entry is present and truthy, as in \<open>if (m.get(k)) ...\<close>.\<close>

definition getTruthy :: "(string \<times> string) list \<Rightarrow> string \<Rightarrow> string option" where
  "getTruthy m k = (case map_of m k of Some v \<Rightarrow> if v \<noteq> [] then Some v else None | None \<Rightarrow> None)"

text \<open>The two map lookups that \<open>resolveRef\<close> makes for the text \<open>s\<close> of a reference.\<close>

definition lookupRef :: "(jsnum \<Rightarrow> string) \<Rightarrow> CaseAMaps \<Rightarrow> string \<Rightarrow> jsval \<Rightarrow> string option" where
  "lookupRef numStr m s t =
     (case (if truthy t
            then (case map_of (typeToMap m) (jsString numStr t) of
                    Some forType \<Rightarrow> getTruthy forType s
                  | None \<Rightarrow> None)
            else None) of
        Some g \<Rightarrow> Some g
      | None \<Rightarrow>
          if s \<notin> set (hasConflict m) then getTruthy (plainMap m) s else None)"

lemma size_getProp:
  "\<not> isNullish (getProp v k) \<Longrightarrow> size (getProp v k) < size v"
proof (cases v)
  case (JObj kvs)
  assume nn: "\<not> isNullish (getProp v k)"
  with JObj obtain x where x: "map_of kvs k = Some x" "getProp v k = x"
    by (cases "map_of kvs k") auto
  then have "(k, x) \<in> set kvs" by (simp add: map_of_SomeD)
  then have "size x < Suc (size_list (size_prod (\<lambda>_. 0) size) kvs)"
    by (induction kvs) auto
  with JObj x show ?thesis by simp
qed simp_all

lemma size_preferKeys:
  "\<not> isNullish (preferKeys v ks) \<Longrightarrow> size (preferKeys v ks) < size v"
  by (induction ks) (auto simp: size_getProp)

text \<open>The local helper \<open>resolveRef\<close> of the array case.\<close>

function resolveRef :: "(jsnum \<Rightarrow> string) \<Rightarrow> CaseAMaps \<Rightarrow> jsval \<Rightarrow> jsval \<Rightarrow> string option" where
  "resolveRef numStr m val t =
     (case val of
        JStr s \<Rightarrow> if CHR '':'' \<in> set s then Some s else lookupRef numStr m s t
      | JNum n \<Rightarrow> lookupRef numStr m (numStr n) t
      | JObj kvs \<Rightarrow>
          (let tpe = preferKeys val [''type'', ''Type''];
               idv = preferKeys val [''id'', ''ID'', ''_id'', ''value'']
           in if \<not> isNullish tpe \<and> \<not> isNullish idv then resolveRef numStr m idv tpe else None)
      | _ \<Rightarrow> None)"
  by pat_completeness auto
termination
  by (relation "measure (\<lambda>(numStr, m, val, t). size val)")
     (auto simp del: preferKeys.simps jsval.size intro!: size_preferKeys)

declare resolveRef.simps [simp del]

definition falsyS :: "string option \<Rightarrow> bool" where
  "falsyS v = (\<not> truthyStr v)"

text \<open>
  The body of the edge loop of the array case, in two parts. First the locals \<open>from\<close>
  and \<open>to\<close> after the resolution strategies have run in order, for an edge that is not
  \<open>null\<close>.
\<close>

definition caseAEndpoints ::
  "(jsnum \<Rightarrow> string) \<Rightarrow> CaseAMaps \<Rightarrow> jsval \<Rightarrow> string option \<times> string option" where
  "caseAEndpoints numStr m e =
        (let from0 = (if truthy (getProp e ''mappings'')
                      then resolveRef numStr m
                             (preferKeys (getProp e ''mappings'') [''source_id'', ''sourceId'', ''srcId'', ''source''])
                             (preferKeys e [''source'', ''sourceType''])
                      else None);
             to0 = (if truthy (getProp e ''mappings'')
                    then resolveRef numStr m
                           (preferKeys (getProp e ''mappings'') [''target_id'', ''targetId'', ''dstId'', ''target''])
                           (preferKeys e [''target'', ''targetType''])
                    else None);
             from1 = (if falsyS from0 \<and> \<not> isNullish (getProp e ''from'')
                      then resolveRef numStr m (getProp e ''from'') (preferKeys e [''fromType''])
                      else from0);
             to1 = (if falsyS to0 \<and> \<not> isNullish (getProp e ''to'')
                    then resolveRef numStr m (getProp e ''to'') (preferKeys e [''toType''])
                    else to0);
             hasBoth = (\<not> isNullish (getProp e ''source'') \<and> \<not> isNullish (getProp e ''target''));
             c2 = ((falsyS from1 \<or> falsyS to1) \<and> hasBoth \<and>
                   (\<not> isNullish (getProp e ''source_value'') \<or> \<not> isNullish (getProp e ''target_value'')));
             from2 = (if c2 then orElse from1 (resolveRef numStr m (getProp e ''source_value'') (getProp e ''source''))
                      else from1);
             to2 = (if c2 then orElse to1 (resolveRef numStr m (getProp e ''target_value'') (getProp e ''target''))
                    else to1);
             c3 = ((falsyS from2 \<or> falsyS to2) \<and> hasBoth);
             from3 = (if c3 then orElse from2 (resolveRef numStr m (getProp e ''source'')
                        (preferKeys e [''sourceType'', ''source_label'', ''sourceLabel'', ''sourceCategory'']))
                      else from2);
             to3 = (if c3 then orElse to2 (resolveRef numStr m (getProp e ''target'')
                        (preferKeys e [''targetType'', ''target_label'', ''targetLabel'', ''targetCategory'']))
                    else to2);
             c4 = ((falsyS from3 \<or> falsyS to3) \<and>
                   (\<not> isNullish (getProp e ''sourceId'') \<or> \<not> isNullish (getProp e ''targetId'')));
             from4 = (if c4 then orElse from3 (resolveRef numStr m (getProp e ''sourceId'')
                        (preferKeys e [''sourceType'', ''source'']))
                      else from3);
             to4 = (if c4 then orElse to3 (resolveRef numStr m (getProp e ''targetId'')
                        (preferKeys e [''targetType'', ''target'']))
                    else to3);
             isPrim = (\<lambda>v. case v of JStr _ \<Rightarrow> True | JNum _ \<Rightarrow> True | _ \<Rightarrow> False);
             s = toStr numStr (getProp e ''source'');
             c5 = ((falsyS from4 \<or> falsyS to4) \<and> isPrim (getProp e ''source''));
             from5a = (if c5 \<and> falsyS from4 \<and> getTruthy (idToGlobal m) s \<noteq> None
                       then getTruthy (idToGlobal m) s else from4);
             from5 = (if c5 \<and> falsyS from5a \<and> getTruthy (plainMap m) s \<noteq> None \<and> s \<notin> set (hasConflict m)
                      then getTruthy (plainMap m) s else from5a);
             t = toStr numStr (getProp e ''target'');
             c6 = ((falsyS from5 \<or> falsyS to4) \<and> isPrim (getProp e ''target''));
             to5a = (if c6 \<and> falsyS to4 \<and> getTruthy (idToGlobal m) t \<noteq> None
                     then getTruthy (idToGlobal m) t else to4);
             to5 = (if c6 \<and> falsyS to5a \<and> getTruthy (plainMap m) t \<noteq> None \<and> t \<notin> set (hasConflict m)
                    then getTruthy (plainMap m) t else to5a)
         in (from5, to5))"

text \<open>
  Then the push: the edge to push, if any. Reading \<open>e.mappings\<close> throws on \<open>null\<close>;
  that is the outer \<open>None\<close>.
\<close>

definition caseAEdge :: "(jsnum \<Rightarrow> string) \<Rightarrow> CaseAMaps \<Rightarrow> jsval \<Rightarrow> jsval option option" where
  "caseAEdge numStr m e =
     (if isNullish e then None
      else
        (let rel = toStr numStr (preferKeys e [''relationship'', ''label'', ''type'']);
             ft = caseAEndpoints numStr m e
         in if truthyStr (fst ft) \<and> truthyStr (snd ft)
            then Some (Some (JObj [(''from'', JStr (the (fst ft))), (''to'', JStr (the (snd ft))),
                                  (''relationship'', JStr rel), (''label'', JStr rel)]))
            else Some None))"

fun caseAEdges :: "(jsnum \<Rightarrow> string) \<Rightarrow> CaseAMaps \<Rightarrow> jsval list \<Rightarrow> jsval list option" where
  "caseAEdges numStr m [] = Some []"
| "caseAEdges numStr m (e # rest) =
     (case caseAEdge numStr m e of
        None \<Rightarrow> None
      | Some r \<Rightarrow>
          (case caseAEdges numStr m rest of
             None \<Rightarrow> None
           | Some es \<Rightarrow> Some ((case r of Some edge \<Rightarrow> [edge] | None \<Rightarrow> []) @ es)))"

definition caseA :: "(jsnum \<Rightarrow> string) \<Rightarrow> jsval \<Rightarrow> jsval list \<Rightarrow> jsval \<Rightarrow> jsval option" where
  "caseA numStr raw nodesRaw edgesRaw =
     (case caseANodes numStr 0 nodesRaw
             ([], \<lparr>idToGlobal = [], typeToMap = [], plainMap = [], hasConflict = []\<rparr>) of
        None \<Rightarrow> None
      | Some (nodes, m) \<Rightarrow>
          (case (case edgesRaw of JArr es \<Rightarrow> caseAEdges numStr m es | _ \<Rightarrow> Some []) of
             None \<Rightarrow> None
           | Some edges \<Rightarrow>
               Some (JObj [(''id'', getProp raw ''id''), (''nodes'', JArr nodes),
                           (''edges'', JArr edges)])))"

text \<open>
  The nested case. \<open>refMap\<close> maps a type to the map from the key used in edges to the
  global id; \<open>scheduleCompositeMap\<close> maps the composite keys of \<open>Schedule\<close> nodes.
\<close>

record NestedMaps =
  refMap :: "(string \<times> (string \<times> string) list) list"
  scheduleCompositeMap :: "(string \<times> string) list"

definition firstOf :: "jsval \<Rightarrow> string list \<Rightarrow> jsval" where
  "firstOf v ks = foldr (\<lambda>k r. nullish_or (getProp v k) r) ks JUndefined"

text \<open>
  One iteration of the inner node loop, for the counter value \<open>idx\<close> after its increment
  and the map of the current type. \<open>Object.keys(n)\<close> throws on \<open>null\<close>.
\<close>

definition nestedNode ::
  "(jsnum \<Rightarrow> string) \<Rightarrow> string \<Rightarrow> nat \<Rightarrow> jsval \<Rightarrow>
   jsval list \<times> (string \<times> string) list \<times> (string \<times> string) list \<Rightarrow>
   (jsval list \<times> (string \<times> string) list \<times> (string \<times> string) list) option" where
  "nestedNode numStr ty idx n acc =
     (if isNullish n then None
      else
        (let lower = toLowerCase ty;
             nodes = fst acc; mapForType = fst (snd acc); sched = snd (snd acc);
             specKey = find (\<lambda>k. toLowerCase k = lower @ ''_id'' \<or> toLowerCase k = lower @ ''id'')
                         (objectKeys n);
             idVal = (case specKey of
                        Some k \<Rightarrow> if k \<noteq> [] then getProp n k else firstOf n [''id'', ''ID'', ''_id'']
                      | None \<Rightarrow> firstOf n [''id'', ''ID'', ''_id'']);
             edgeKey = (if \<not> isNullish idVal then jsString numStr idVal else decimal idx);
             globalId = ty @ '':'' @ edgeKey;
             label = nullish_or (firstOf n [''name'', ''Title'', ''label'', ''IATA''])
                       (JStr (ty @ '' '' @ edgeKey));
             nodes1 = nodes @ [withIdLabelType n (JStr globalId) label (JStr ty)];
             map1 = AList.update edgeKey globalId mapForType;
             filmId = firstOf n [''Film_ID'', ''film_id'', ''FilmId'', ''filmid''];
             cinemaId = firstOf n [''Cinema_ID'', ''cinema_id'', ''CinemaId'', ''cinemaid''];
             dateVal = firstOf n [''Date'', ''date''];
             k1 = ''film='' @ jsString numStr filmId @ ''|cinema='' @ jsString numStr cinemaId;
             sched1 = (if lower = ''schedule'' \<and> \<not> isNullish filmId \<and> \<not> isNullish cinemaId
                       then (let s1 = AList.update k1 globalId sched
                             in if \<not> isNullish dateVal
                                then AList.update (k1 @ ''|date='' @ jsString numStr dateVal) globalId s1
                                else s1)
                       else sched)
         in Some (nodes1, map1, sched1)))"

fun nestedNodes ::
  "(jsnum \<Rightarrow> string) \<Rightarrow> string \<Rightarrow> nat \<Rightarrow> jsval list \<Rightarrow>
   jsval list \<times> (string \<times> string) list \<times> (string \<times> string) list \<Rightarrow>
   (jsval list \<times> (string \<times> string) list \<times> (string \<times> string) list) option" where
  "nestedNodes numStr ty idx [] acc = Some acc"
| "nestedNodes numStr ty idx (n # rest) acc =
     (case nestedNode numStr ty (idx + 1) n acc of
        None \<Rightarrow> None
      | Some acc' \<Rightarrow> nestedNodes numStr ty (idx + 1) rest acc')"

text \<open>The loop over \<open>Object.entries(nodesRaw)\<close>.\<close>

fun nestedTypes ::
  "(jsnum \<Rightarrow> string) \<Rightarrow> (string \<times> jsval) list \<Rightarrow> jsval list \<times> NestedMaps \<Rightarrow>
   (jsval list \<times> NestedMaps) option" where
  "nestedTypes numStr [] acc = Some acc"
| "nestedTypes numStr ((ty, arr) # rest) acc =
     (case arr of
        JArr items \<Rightarrow>
          (case nestedNodes numStr ty 0 items (fst acc, [], scheduleCompositeMap (snd acc)) of
             None \<Rightarrow> None
           | Some (nodes1, mapForType, sched1) \<Rightarrow>
               nestedTypes numStr rest
                 (nodes1, \<lparr>refMap = AList.update ty mapForType (refMap (snd acc)),
                           scheduleCompositeMap = sched1\<rparr>))
      | _ \<Rightarrow> nestedTypes numStr rest acc)"

text \<open>
  The branch of the edge loop that pushed an edge: the \<open>mappings\<close> format, the
  \<open>source_value\<close>/\<open>target_value\<close> format, its \<open>Schedule\<close> composite-key fallback, or the
  edge passed through as it is. The source does not record the branch; the model does, to
  be able to state properties per branch.
\<close>

datatype EdgeRoute = ViaMappings | ViaValues | ViaSchedule | PassedThrough

text \<open>\<open>m?.get(k)\<close> for an optional map.\<close>

definition getOpt :: "(string \<times> string) list option \<Rightarrow> string \<Rightarrow> string option" where
  "getOpt m k = (case m of Some mm \<Rightarrow> map_of mm k | None \<Rightarrow> None)"

definition emittedEdge :: "string \<Rightarrow> string \<Rightarrow> jsval \<Rightarrow> jsval \<Rightarrow> jsval" where
  "emittedEdge fromId toId rel e =
     JObj ([(''from'', JStr fromId), (''to'', JStr toId), (''relationship'', rel), (''label'', rel)] @
           (if truthy (getProp e ''edge_properties'')
            then [(''properties'', getProp e ''edge_properties'')] else []))"

definition nestedEdge :: "(jsnum \<Rightarrow> string) \<Rightarrow> NestedMaps \<Rightarrow> jsval \<Rightarrow> (EdgeRoute \<times> jsval) option" where
  "nestedEdge numStr m e =
     (let src = getProp e ''source''; tgt = getProp e ''target'';
          sMap = map_of (refMap m) (jsString numStr src);
          tMap = map_of (refMap m) (jsString numStr tgt);
          rel = nullish_or (getProp e ''relationship'') (nullish_or (getProp e ''label'') (JStr []));
          mp = getProp e ''mappings'';
          c1 = (truthy e \<and> truthy src \<and> truthy tgt \<and> truthy mp \<and> isObjectType mp);
          fromId1 = getOpt sMap (jsString numStr (firstOf mp [''source_id'', ''sourceId'', ''srcId'', ''source'']));
          toId1 = getOpt tMap (jsString numStr (firstOf mp [''target_id'', ''targetId'', ''dstId'', ''target'']));
          c2 = (truthy e \<and> truthy src \<and> truthy tgt \<and>
                getProp e ''source_value'' \<noteq> JUndefined \<and> getProp e ''target_value'' \<noteq> JUndefined);
          fromId2 = getOpt sMap (jsString numStr (getProp e ''source_value''));
          toId2 = getOpt tMap (jsString numStr (getProp e ''target_value''));
          props = getProp e ''edge_properties'';
          filmId = firstOf props [''Film_ID'', ''film_id'', ''FilmId'', ''filmid''];
          cinemaId = firstOf props [''Cinema_ID'', ''cinema_id'', ''CinemaId'', ''cinemaid''];
          dateVal = firstOf props [''Date'', ''date''];
          k1 = ''film='' @ jsString numStr filmId @ ''|cinema='' @ jsString numStr cinemaId;
          k2 = k1 @ ''|date='' @ jsString numStr dateVal;
          fromId3 = (if \<not> isNullish filmId \<and> \<not> isNullish cinemaId
                     then orElse (map_of (scheduleCompositeMap m) k2)
                            (orElse (map_of (scheduleCompositeMap m) k1) fromId2)
                     else fromId2)
      in if c1 \<and> truthyStr fromId1 \<and> truthyStr toId1
         then Some (ViaMappings, emittedEdge (the fromId1) (the toId1) rel e)
         else if c2
         then (if truthyStr fromId2 \<and> truthyStr toId2
               then Some (ViaValues, emittedEdge (the fromId2) (the toId2) rel e)
               else if toLowerCase (jsString numStr src) = ''schedule'' \<and> truthy props \<and>
                       truthyStr fromId3 \<and> truthyStr toId2
               then Some (ViaSchedule, emittedEdge (the fromId3) (the toId2) rel e)
               else None)
         else if truthy e \<and> (truthy (getProp e ''from'') \<or> truthy src) \<and>
                 (truthy (getProp e ''to'') \<or> truthy tgt)
         then Some (PassedThrough, e)
         else None)"

definition nested :: "(jsnum \<Rightarrow> string) \<Rightarrow> jsval \<Rightarrow> (string \<times> jsval) list \<Rightarrow> jsval \<Rightarrow> jsval option" where
  "nested numStr raw nodesRaw edgesRaw =
     (case nestedTypes numStr nodesRaw ([], \<lparr>refMap = [], scheduleCompositeMap = []\<rparr>) of
        None \<Rightarrow> None
      | Some (nodes, m) \<Rightarrow>
          Some (JObj [(''id'', getProp raw ''id''), (''nodes'', JArr nodes),
                      (''edges'',
                       JArr (case edgesRaw of
                               JArr es \<Rightarrow> map snd (List.map_filter (nestedEdge numStr m) es)
                             | _ \<Rightarrow> []))]))"

text \<open>
  \<open>normalizeGraphPayload\<close>. The result is \<open>None\<close> when the source throws a \<open>TypeError\<close>
  (a property read on \<open>null\<close> or \<open>undefined\<close>).
\<close>

definition normalizeGraphPayload :: "(jsnum \<Rightarrow> string) \<Rightarrow> jsval \<Rightarrow> jsval option" where
  "normalizeGraphPayload numStr raw =
     (if isNullish raw then None
      else
        (let nodesRaw = getProp raw ''nodes''; edgesRaw = getProp raw ''edges''
         in if isCanonicalNodeArray nodesRaw \<and> isCanonicalEdgeArray edgesRaw then Some raw
            else (case nodesRaw of
                    JArr items \<Rightarrow> caseA numStr raw items edgesRaw
                  | JObj kvs \<Rightarrow> nested numStr raw kvs edgesRaw
                  | _ \<Rightarrow> Some raw)))"

text \<open>
  A concrete \<open>Number::toString\<close> for the evaluated examples; it is the host's function on
  the integers of magnitude below \<open>10^21\<close>.
\<close>

definition integerText :: "jsnum \<Rightarrow> string" where
  "integerText n =
     (case n of
        Num r \<Rightarrow> if r < 0 then ''-'' @ decimal (nat \<lfloor>- r\<rfloor>) else decimal (nat \<lfloor>r\<rfloor>)
      | NaN \<Rightarrow> ''NaN''
      | PosInfinity \<Rightarrow> ''Infinity''
      | NegInfinity \<Rightarrow> ''-Infinity'')"

section \<open>Properties of the zoom heuristics\<close>

lemma pixel_width_range:
  "68 \<le> computeMinReadableNodePixelWidth x \<and> computeMinReadableNodePixelWidth x \<le> 110"
  by (cases x) (auto simp: layout_consts Let_def field_simps)

lemma pixel_width_antimono:
  assumes "a \<le> b"
  shows "computeMinReadableNodePixelWidth (Num b) \<le> computeMinReadableNodePixelWidth (Num a)"
  using assms by (auto simp: layout_consts Let_def field_simps)

text \<open>
  C4. \<open>computeMinReadableNodePixelWidth\<close> is piecewise linear and non-increasing in the
  node count: 110 for every count up to 80 and for the non-finite counts, 68 from 600 on,
  the linear interpolation between the two strictly in between, and in every case a value
  in the closed interval from 68 to 110.
\<close>

theorem computeMinReadableNodePixelWidth_piecewise:
  "(c \<le> 80 \<longrightarrow> computeMinReadableNodePixelWidth (Num c) = 110) \<and>
   computeMinReadableNodePixelWidth NaN = 110 \<and>
   computeMinReadableNodePixelWidth PosInfinity = 110 \<and>
   computeMinReadableNodePixelWidth NegInfinity = 110 \<and>
   (600 \<le> c \<longrightarrow> computeMinReadableNodePixelWidth (Num c) = 68) \<and>
   (80 < c \<and> c < 600 \<longrightarrow>
      computeMinReadableNodePixelWidth (Num c) = 110 - (c - 80) / (600 - 80) * (110 - 68)) \<and>
   (a \<le> b \<longrightarrow>
      computeMinReadableNodePixelWidth (Num b) \<le> computeMinReadableNodePixelWidth (Num a)) \<and>
   68 \<le> computeMinReadableNodePixelWidth x \<and> computeMinReadableNodePixelWidth x \<le> 110"
proof -
  have "c \<le> 80 \<longrightarrow> computeMinReadableNodePixelWidth (Num c) = 110"
    by (simp add: layout_consts)
  moreover have "600 \<le> c \<longrightarrow> computeMinReadableNodePixelWidth (Num c) = 68"
    by (simp add: layout_consts)
  moreover have "80 < c \<and> c < 600 \<longrightarrow>
      computeMinReadableNodePixelWidth (Num c) = 110 - (c - 80) / (600 - 80) * (110 - 68)"
    by (simp add: layout_consts Let_def)
  ultimately show ?thesis
    using pixel_width_range [of x] pixel_width_antimono [of a b]
    by (simp add: layout_consts)
qed

theorem computeMinReadableNodePixelWidth_piecewise_witness:
  "computeMinReadableNodePixelWidth (Num 80) = 110 \<and>
   computeMinReadableNodePixelWidth (Num 600) = 68 \<and>
   computeMinReadableNodePixelWidth (Num 340) = 89 \<and>
   computeMinReadableNodePixelWidth (Num 600) \<le> computeMinReadableNodePixelWidth (Num 340)"
  using computeMinReadableNodePixelWidth_piecewise [of 80 340 600 NaN]
    computeMinReadableNodePixelWidth_piecewise [of 600 340 600 NaN]
    computeMinReadableNodePixelWidth_piecewise [of 340 340 600 NaN]
  by (simp add: layout_consts)









section \<open>Properties of the grid fallback\<close>

lemma gridCols_ge2: assumes "2 \<le> n" shows "2 \<le> gridCols n"
proof -
  have "1 < sqrt (real n)" using assms by simp
  then have "1 < \<lceil>sqrt (real n)\<rceil>" by linarith
  then show ?thesis unfolding gridCols_def by linarith
qed

lemma gridCols_le: assumes "1 \<le> n" shows "gridCols n \<le> n"
proof -
  have "real n * 1 \<le> real n * real n"
    using assms by (intro mult_left_mono) simp_all
  then have "real n \<le> (real n)\<^sup>2" by (simp add: power2_eq_square)
  then have "sqrt (real n) \<le> sqrt ((real n)\<^sup>2)" by (simp only: real_sqrt_le_iff)
  then have "sqrt (real n) \<le> real n" by simp
  then have "\<lceil>sqrt (real n)\<rceil> \<le> int n" by (simp add: ceiling_le_iff)
  then show ?thesis unfolding gridCols_def by linarith
qed

lemma gridRows_eq: assumes "1 \<le> n" shows "gridRows n = (n - 1) div gridCols n + 1"
proof -
  define c where "c = gridCols n"
  have c: "0 < c" 
  proof -
    have "0 < sqrt (real n)" using assms by simp
    then have "0 < \<lceil>sqrt (real n)\<rceil>" by linarith
    then show ?thesis unfolding c_def gridCols_def by linarith
  qed
  define k where "k = (n - 1) div c"
  have lo: "k * c \<le> n - 1" unfolding k_def by simp
  have hi: "n - 1 < (k + 1) * c" unfolding k_def using c
    by (metis add.commute div_less_iff_less_mult less_add_one mult.commute)
  have "real n / real c \<le> real (k + 1)"
  proof -
    have "n \<le> (k + 1) * c" using hi assms by linarith
    then have "real n \<le> real ((k + 1) * c)" by (simp only: of_nat_le_iff)
    then show ?thesis using c by (simp add: field_simps)
  qed
  moreover have "real k < real n / real c"
  proof -
    have "k * c < n" using lo assms by linarith
    then have "real (k * c) < real n" by (simp only: of_nat_less_iff)
    then show ?thesis using c by (simp add: field_simps)
  qed
  ultimately have "\<lceil>real n / real c\<rceil> = int (k + 1)"
    by (intro ceiling_unique) simp_all
  then show ?thesis unfolding gridRows_def c_def[symmetric] k_def by simp
qed

lemma spread_length: "length (spreadNodesInGrid g) = length g"
  by (simp add: spreadNodesInGrid_def Let_def)

lemma center_setNodeCenter: "center (setNodeCenter nd p) = p"
  by (simp add: center_def setNodeCenter_def)

lemma spread_nth:
  assumes "2 \<le> length g" "i < length g"
  shows "center (spreadNodesInGrid g ! i) =
    (startX (length g) + real (i mod gridCols (length g)) * spacingX,
     startY (length g) + real (i div gridCols (length g)) * spacingY)"
  using assms by (simp add: spreadNodesInGrid_def Let_def nth_enumerate_eq center_setNodeCenter)

lemma spacing_pos: "0 < spacingX" "0 < spacingY"
  by (simp_all add: spacingX_def spacingY_def layout_consts)

lemma spread_distinct:
  assumes "2 \<le> length g" "i < length g" "j < length g" "i \<noteq> j"
  shows "center (spreadNodesInGrid g ! i) \<noteq> center (spreadNodesInGrid g ! j)"
proof
  assume eq: "center (spreadNodesInGrid g ! i) = center (spreadNodesInGrid g ! j)"
  define c where "c = gridCols (length g)"
  from eq have "real (i mod c) * spacingX = real (j mod c) * spacingX"
    and "real (i div c) * spacingY = real (j div c) * spacingY"
    using assms by (simp_all add: spread_nth c_def)
  then have "i mod c = j mod c" "i div c = j div c"
    using spacing_pos by simp_all
  then have "i = j" by (metis div_mult_mod_eq)
  with assms show False by simp
qed

lemma tooTight_small: "length g \<le> 3 \<Longrightarrow> \<not> graphBoundsTooTight g"
  by (simp add: graphBoundsTooTight_def)


lemma spread_nth_bounds:
  assumes g: "2 \<le> length g" and i: "i < length g"
  shows "center (spreadNodesInGrid g ! i) =
           (startX (length g) + real (i mod gridCols (length g)) * (23 / 10 * baseNodeWidth),
            startY (length g) + real (i div gridCols (length g)) * (2 * baseNodeHeight))"
    and "startX (length g) \<le> fst (center (spreadNodesInGrid g ! i))"
    and "fst (center (spreadNodesInGrid g ! i)) \<le> - startX (length g)"
    and "startY (length g) \<le> snd (center (spreadNodesInGrid g ! i))"
    and "snd (center (spreadNodesInGrid g ! i)) \<le> - startY (length g)"
proof -
  define n where "n = length g"
  define c where "c = gridCols n"
  have c: "2 \<le> c" "c \<le> n" using g gridCols_ge2[of n] gridCols_le[of n] by (simp_all add: c_def n_def)
  have rows: "gridRows n = (n - 1) div c + 1" using g gridRows_eq[of n] by (simp add: c_def n_def)
  have nth: "center (spreadNodesInGrid g ! i) =
      (startX n + real (i mod c) * spacingX, startY n + real (i div c) * spacingY)"
    using spread_nth[OF g i] by (simp add: n_def c_def)
  show "center (spreadNodesInGrid g ! i) =
           (startX (length g) + real (i mod gridCols (length g)) * (23 / 10 * baseNodeWidth),
            startY (length g) + real (i div gridCols (length g)) * (2 * baseNodeHeight))"
    using nth by (simp add: n_def c_def spacingX_def spacingY_def)
  have "i mod c < c" using c by (intro mod_less_divisor) simp
  then have "i mod c \<le> c - 1" by simp
  then have m: "real (i mod c) \<le> real c - 1" using c by (simp add: of_nat_diff le_diff_conv2)
  have "i div c \<le> (n - 1) div c" using i by (intro div_le_mono) (simp add: n_def)
  then have d: "real (i div c) \<le> real (gridRows n) - 1" by (simp add: rows)
  show "startX (length g) \<le> fst (center (spreadNodesInGrid g ! i))"
    using nth spacing_pos by (simp add: n_def)
  show "startY (length g) \<le> snd (center (spreadNodesInGrid g ! i))"
    using nth spacing_pos by (simp add: n_def)
  have "real (i mod c) * spacingX \<le> (real c - 1) * spacingX"
    using m spacing_pos by (intro mult_right_mono) simp_all
  then show "fst (center (spreadNodesInGrid g ! i)) \<le> - startX (length g)"
    using nth by (simp add: n_def[symmetric] startX_def c_def[symmetric] mult.commute)
  have "real (i div c) * spacingY \<le> (real (gridRows n) - 1) * spacingY"
    using d spacing_pos by (intro mult_right_mono) simp_all
  then show "snd (center (spreadNodesInGrid g ! i)) \<le> - startY (length g)"
    using nth by (simp add: n_def[symmetric] startY_def mult.commute)
qed

lemma spread_extremes:
  assumes g: "2 \<le> length g"
  shows "center (spreadNodesInGrid g ! 0) = (startX (length g), startY (length g))"
    and "fst (center (spreadNodesInGrid g ! (gridCols (length g) - 1))) = - startX (length g)"
    and "snd (center (spreadNodesInGrid g ! (length g - 1))) = - startY (length g)"
proof -
  define n where "n = length g"
  define c where "c = gridCols n"
  have c: "2 \<le> c" "c \<le> n" using g gridCols_ge2[of n] gridCols_le[of n] by (simp_all add: c_def n_def)
  have rows: "gridRows n = (n - 1) div c + 1" using g gridRows_eq[of n] by (simp add: c_def n_def)
  show "center (spreadNodesInGrid g ! 0) = (startX (length g), startY (length g))"
  proof -
    have "0 < length g" using g by linarith
    from spread_nth[OF g this] show ?thesis by simp
  qed
  have "c - 1 < length g" using c by (simp add: n_def)
  from spread_nth[OF g this]
  have "fst (center (spreadNodesInGrid g ! (c - 1))) = startX n + real (c - 1) * spacingX"
    using c by (simp add: n_def[symmetric] c_def[symmetric])
  then show "fst (center (spreadNodesInGrid g ! (gridCols (length g) - 1))) = - startX (length g)"
    using c by (simp add: n_def[symmetric] c_def[symmetric] startX_def of_nat_diff)
  have "n - 1 < length g" using g by (simp add: n_def)
  from spread_nth[OF g this]
  have "snd (center (spreadNodesInGrid g ! (n - 1))) = startY n + real ((n - 1) div c) * spacingY"
    by (simp add: n_def[symmetric] c_def[symmetric])
  then show "snd (center (spreadNodesInGrid g ! (length g - 1))) = - startY (length g)"
    by (simp add: n_def[symmetric] startY_def rows)
qed

text \<open>
  C3. On a non-empty graph \<open>applySimpleLayout\<close> runs the organic layout, then (with
  more than one node) the component layout, then \<open>expandGraphExtent\<close>, tests
  \<open>graphBoundsTooTight\<close> on the outcome and, when the test holds, returns
  \<open>spreadNodesInGrid\<close> of it. A graph of at most three nodes is never too tight. With
  at least two nodes, \<open>spreadNodesInGrid\<close> keeps the nodes, uses
  \<open>ceil(sqrt(n))\<close> columns and gives node \<open>i\<close> the centre
  \<open>(startX + (i mod cols) * 2.3 * baseNodeWidth, startY + (i div cols) * 2.0 * baseNodeHeight)\<close>;
  the grid is centred on the origin (the centres lie between \<open>(startX, startY)\<close> and
  \<open>(-startX, -startY)\<close>, and both corners' coordinates are attained); and two distinct
  nodes receive distinct centres.
\<close>

theorem applySimpleLayout_grid_fallback:
  "(graph \<noteq> [] \<longrightarrow>
      applySimpleLayout organicLayout componentLayout ns els cgs (Some graph) =
        Some (let g1 = organicLayout (preferredLength ns els) (minimumDistance ns) graph;
                  g2 = (if 1 < length g1 then componentLayout (componentGap ns cgs) g1 else g1);
                  g3 = expandGraphExtent g2 (componentGap ns cgs)
              in if graphBoundsTooTight g3 then spreadNodesInGrid g3 else g3)) \<and>
   (length g \<le> 3 \<longrightarrow> \<not> graphBoundsTooTight g) \<and>
   (2 \<le> length g \<longrightarrow>
      length (spreadNodesInGrid g) = length g \<and>
      gridCols (length g) = nat \<lceil>sqrt (real (length g))\<rceil> \<and>
      (\<forall>i<length g.
         center (spreadNodesInGrid g ! i) =
           (startX (length g) + real (i mod gridCols (length g)) * (23 / 10 * baseNodeWidth),
            startY (length g) + real (i div gridCols (length g)) * (2 * baseNodeHeight)) \<and>
         startX (length g) \<le> fst (center (spreadNodesInGrid g ! i)) \<and>
         fst (center (spreadNodesInGrid g ! i)) \<le> - startX (length g) \<and>
         startY (length g) \<le> snd (center (spreadNodesInGrid g ! i)) \<and>
         snd (center (spreadNodesInGrid g ! i)) \<le> - startY (length g)) \<and>
      center (spreadNodesInGrid g ! 0) = (startX (length g), startY (length g)) \<and>
      fst (center (spreadNodesInGrid g ! (gridCols (length g) - 1))) = - startX (length g) \<and>
      snd (center (spreadNodesInGrid g ! (length g - 1))) = - startY (length g) \<and>
      (\<forall>i<length g. \<forall>j<length g. i \<noteq> j \<longrightarrow>
         center (spreadNodesInGrid g ! i) \<noteq> center (spreadNodesInGrid g ! j)))"
proof -
  have apply_eq: "graph \<noteq> [] \<longrightarrow>
      applySimpleLayout organicLayout componentLayout ns els cgs (Some graph) =
        Some (let g1 = organicLayout (preferredLength ns els) (minimumDistance ns) graph;
                  g2 = (if 1 < length g1 then componentLayout (componentGap ns cgs) g1 else g1);
                  g3 = expandGraphExtent g2 (componentGap ns cgs)
              in if graphBoundsTooTight g3 then spreadNodesInGrid g3 else g3)"
    by (simp add: applySimpleLayout_def Let_def)
  show ?thesis
    apply (intro conjI impI allI)
              apply (rule apply_eq [rule_format], assumption)
             apply (erule tooTight_small)
            apply (rule spread_length)
           apply (rule gridCols_def)
          apply (erule (1) spread_nth_bounds(1))
         apply (erule (1) spread_nth_bounds(2))
        apply (erule (1) spread_nth_bounds(3))
       apply (erule (1) spread_nth_bounds(4))
      apply (erule (1) spread_nth_bounds(5))
     apply (erule spread_extremes(1))
    apply (erule spread_extremes(2))
    apply (erule spread_extremes(3))
    apply (erule (3) spread_distinct)
    done
qed

lemma gridCols_4: "gridCols 4 = 2"
proof -
  have "sqrt (real 4) = 2" by simp
  then show ?thesis by (simp add: gridCols_def)
qed

theorem applySimpleLayout_grid_fallback_witness:
  "applySimpleLayout (\<lambda>l d g. g) (\<lambda>gap g. g) 1 1 1
      (Some (replicate 4 \<lparr>lx = 0, ly = 0, lwidth = 260, lheight = 200\<rparr>)) =
     Some (spreadNodesInGrid (replicate 4 \<lparr>lx = 0, ly = 0, lwidth = 260, lheight = 200\<rparr>)) \<and>
   \<not> graphBoundsTooTight (replicate 3 \<lparr>lx = 0, ly = 0, lwidth = 260, lheight = 200\<rparr>) \<and>
   center (spreadNodesInGrid (replicate 4 \<lparr>lx = 0, ly = 0, lwidth = 260, lheight = 200\<rparr>) ! 3) = (299, 200) \<and>
   center (spreadNodesInGrid (replicate 4 \<lparr>lx = 0, ly = 0, lwidth = 260, lheight = 200\<rparr>) ! 0) \<noteq>
   center (spreadNodesInGrid (replicate 4 \<lparr>lx = 0, ly = 0, lwidth = 260, lheight = 200\<rparr>) ! 3)"
proof -
  define n0 where "n0 = \<lparr>lx = 0, ly = 0, lwidth = 260, lheight = 200\<rparr>"
  define g4 where "g4 = replicate 4 n0"
  define g3 where "g3 = replicate 3 n0"
  have len: "length g4 = 4" "length g3 = 3" by (simp_all add: g4_def g3_def)
  have g4: "g4 = [n0, n0, n0, n0]" by (simp add: g4_def numeral_eq_Suc)
  have s4: "sqrt (real 4) = 2" by simp
  have s4': "sqrt 4 = 2" by simp
  have rows: "gridRows 4 = 2" by (simp add: gridRows_def gridCols_4)
  have gap: "componentGap 1 1 = 1287 / 2.5" 
    by (simp add: componentGap_def minimumDistance_def layout_consts)
  have e: "expandGraphExtent g4 (componentGap 1 1) = g4"
    unfolding gap unfolding g4
    by (simp add: expandGraphExtent_def Let_def center_def setNodeCenter_def n0_def layout_consts s4')
  have t: "graphBoundsTooTight g4"
    unfolding g4
    by (simp add: graphBoundsTooTight_def Let_def n0_def layout_consts s4')
  note T = applySimpleLayout_grid_fallback [of g4 "\<lambda>l d g. g" "\<lambda>gap g. g" 1 1 1 g3]
  note U = applySimpleLayout_grid_fallback [of g4 "\<lambda>l d g. g" "\<lambda>gap g. g" 1 1 1 g4]
  have ne: "g4 \<noteq> []" by (simp add: g4)
  from T ne have a: "applySimpleLayout (\<lambda>l d g. g) (\<lambda>gap g. g) 1 1 1 (Some g4) = Some (spreadNodesInGrid g4)"
    by (simp add: Let_def e t len)
  from T have b: "\<not> graphBoundsTooTight g3" by (simp add: len)
  have two: "2 \<le> length g4" by (simp add: len)
  from U two have c: "\<forall>i<length g4. center (spreadNodesInGrid g4 ! i) =
           (startX (length g4) + real (i mod gridCols (length g4)) * (23 / 10 * baseNodeWidth),
            startY (length g4) + real (i div gridCols (length g4)) * (2 * baseNodeHeight)) \<and>
         startX (length g4) \<le> fst (center (spreadNodesInGrid g4 ! i)) \<and>
         fst (center (spreadNodesInGrid g4 ! i)) \<le> - startX (length g4) \<and>
         startY (length g4) \<le> snd (center (spreadNodesInGrid g4 ! i)) \<and>
         snd (center (spreadNodesInGrid g4 ! i)) \<le> - startY (length g4)"
    and d: "\<forall>i<length g4. \<forall>j<length g4. i \<noteq> j \<longrightarrow>
         center (spreadNodesInGrid g4 ! i) \<noteq> center (spreadNodesInGrid g4 ! j)"
    by blast+
  have three: "3 < length g4" "0 < length g4" "(0::nat) \<noteq> 3" by (simp_all add: len)
  from c three(1) have "center (spreadNodesInGrid g4 ! 3) =
           (startX (length g4) + real (3 mod gridCols (length g4)) * (23 / 10 * baseNodeWidth),
            startY (length g4) + real (3 div gridCols (length g4)) * (2 * baseNodeHeight))"
    by blast
  then have c3: "center (spreadNodesInGrid g4 ! 3) = (299, 200)"
    by (simp add: len gridCols_4 rows startX_def startY_def spacingX_def spacingY_def layout_consts)
  from d three have d03: "center (spreadNodesInGrid g4 ! 0) \<noteq> center (spreadNodesInGrid g4 ! 3)"
    by blast
  show ?thesis using a b c3 d03 unfolding g4_def g3_def n0_def by simp
qed

section \<open>Properties of the manifest\<close>








lemma dropWhile_idem: "dropWhile P (dropWhile P xs) = dropWhile P xs"
  by (induction xs) auto
















section \<open>Properties of the filter highlighting\<close>

lemma nodeMatches_style [simp]: "nodeMatches nf (nd\<lparr>nodeStyle := s\<rparr>) = nodeMatches nf nd"
  by (simp add: nodeMatches_def)

lemma edgeMatches_style [simp]: "edgeMatches rf (e\<lparr>edgeStyle := s\<rparr>) = edgeMatches rf e"
  by (simp add: edgeMatches_def)
















section \<open>Properties of the per-file settings\<close>

text \<open>
  What the watcher does to the filters in general: once a file has been loaded, a switch
  to another file \<open>f\<close> stores the filters that are active now under \<open>f\<close> (the ref
  already holds \<open>f\<close> when the callback saves "the current" file) and then restores
  exactly those, so the active filters survive the switch unchanged, whatever was stored
  for \<open>f\<close> before.
\<close>

lemma selectFile_keeps_active_filters:
  assumes "truthyStr (lastLoadedFile st)" "f \<noteq> []" "f \<noteq> selectedFile st"
  shows "filterMode (selectFile f st) = filterMode st"
    and "activeNodeLabelFilter (selectFile f st) = activeNodeLabelFilter st"
    and "activeRelTypeFilter (selectFile f st) = activeRelTypeFilter st"
    and "filterSettingsByFile (selectFile f st) f =
           Some \<lparr>fsFilterMode = filterMode st, fsNodeFilter = activeNodeLabelFilter st,
                 fsRelFilter = activeRelTypeFilter st\<rparr>"
    and "filterSettingsByFile (selectFile f st) (selectedFile st) =
           filterSettingsByFile st (selectedFile st)"
  using assms
  by (simp_all add: selectFile_def watchSelectedFile_def saveFilterSettingsForCurrent_def
      ensureFilterSettingsFor_def ensureSettingsFor_def Let_def split: option.splits)

text \<open>
  C6 at a concrete state. The file \<open>a.json\<close> is loaded and shown in filter mode with the
  node filter \<open>Film\<close>; for \<open>b.json\<close> highlight mode with the relationship filter
  \<open>ACTED_IN\<close> is stored. After the user selects \<open>b.json\<close>, the settings stored for
  \<open>b.json\<close> are those of \<open>a.json\<close>, the active filters are still those of \<open>a.json\<close>,
  and only the scales are the defaults of a file without saved scales.
\<close>

theorem selectFile_overwrites_other_file:
  "filterSettingsByFile
     (selectFile ''b.json''
        \<lparr>selectedFile = ''a.json'', lastLoadedFile = Some ''a.json'',
          filterSettingsByFile =
            [''a.json'' \<mapsto> \<lparr>fsFilterMode = Filter, fsNodeFilter = Some ''Film'', fsRelFilter = None\<rparr>,
             ''b.json'' \<mapsto> \<lparr>fsFilterMode = Highlight, fsNodeFilter = None,
                            fsRelFilter = Some ''ACTED_IN''\<rparr>],
          settingsByFile =
            [''a.json'' \<mapsto> \<lparr>vsNodeScale = 2, vsEdgeLenScale = 1, vsClusterGapScale = 12 / 10\<rparr>],
          filterMode = Filter, activeNodeLabelFilter = Some ''Film'', activeRelTypeFilter = None,
          nodeScale = 2, edgeLenScale = 1, clusterGapScale = 12 / 10,
          graphComponent = None, selectedIEdge = None\<rparr>) ''b.json'' =
     Some \<lparr>fsFilterMode = Filter, fsNodeFilter = Some ''Film'', fsRelFilter = None\<rparr> \<and>
   filterMode
     (selectFile ''b.json''
        \<lparr>selectedFile = ''a.json'', lastLoadedFile = Some ''a.json'',
          filterSettingsByFile =
            [''a.json'' \<mapsto> \<lparr>fsFilterMode = Filter, fsNodeFilter = Some ''Film'', fsRelFilter = None\<rparr>,
             ''b.json'' \<mapsto> \<lparr>fsFilterMode = Highlight, fsNodeFilter = None,
                            fsRelFilter = Some ''ACTED_IN''\<rparr>],
          settingsByFile =
            [''a.json'' \<mapsto> \<lparr>vsNodeScale = 2, vsEdgeLenScale = 1, vsClusterGapScale = 12 / 10\<rparr>],
          filterMode = Filter, activeNodeLabelFilter = Some ''Film'', activeRelTypeFilter = None,
          nodeScale = 2, edgeLenScale = 1, clusterGapScale = 12 / 10,
          graphComponent = None, selectedIEdge = None\<rparr>) = Filter \<and>
   activeNodeLabelFilter
     (selectFile ''b.json''
        \<lparr>selectedFile = ''a.json'', lastLoadedFile = Some ''a.json'',
          filterSettingsByFile =
            [''a.json'' \<mapsto> \<lparr>fsFilterMode = Filter, fsNodeFilter = Some ''Film'', fsRelFilter = None\<rparr>,
             ''b.json'' \<mapsto> \<lparr>fsFilterMode = Highlight, fsNodeFilter = None,
                            fsRelFilter = Some ''ACTED_IN''\<rparr>],
          settingsByFile =
            [''a.json'' \<mapsto> \<lparr>vsNodeScale = 2, vsEdgeLenScale = 1, vsClusterGapScale = 12 / 10\<rparr>],
          filterMode = Filter, activeNodeLabelFilter = Some ''Film'', activeRelTypeFilter = None,
          nodeScale = 2, edgeLenScale = 1, clusterGapScale = 12 / 10,
          graphComponent = None, selectedIEdge = None\<rparr>) = Some ''Film'' \<and>
   activeRelTypeFilter
     (selectFile ''b.json''
        \<lparr>selectedFile = ''a.json'', lastLoadedFile = Some ''a.json'',
          filterSettingsByFile =
            [''a.json'' \<mapsto> \<lparr>fsFilterMode = Filter, fsNodeFilter = Some ''Film'', fsRelFilter = None\<rparr>,
             ''b.json'' \<mapsto> \<lparr>fsFilterMode = Highlight, fsNodeFilter = None,
                            fsRelFilter = Some ''ACTED_IN''\<rparr>],
          settingsByFile =
            [''a.json'' \<mapsto> \<lparr>vsNodeScale = 2, vsEdgeLenScale = 1, vsClusterGapScale = 12 / 10\<rparr>],
          filterMode = Filter, activeNodeLabelFilter = Some ''Film'', activeRelTypeFilter = None,
          nodeScale = 2, edgeLenScale = 1, clusterGapScale = 12 / 10,
          graphComponent = None, selectedIEdge = None\<rparr>) = None \<and>
   nodeScale
     (selectFile ''b.json''
        \<lparr>selectedFile = ''a.json'', lastLoadedFile = Some ''a.json'',
          filterSettingsByFile =
            [''a.json'' \<mapsto> \<lparr>fsFilterMode = Filter, fsNodeFilter = Some ''Film'', fsRelFilter = None\<rparr>,
             ''b.json'' \<mapsto> \<lparr>fsFilterMode = Highlight, fsNodeFilter = None,
                            fsRelFilter = Some ''ACTED_IN''\<rparr>],
          settingsByFile =
            [''a.json'' \<mapsto> \<lparr>vsNodeScale = 2, vsEdgeLenScale = 1, vsClusterGapScale = 12 / 10\<rparr>],
          filterMode = Filter, activeNodeLabelFilter = Some ''Film'', activeRelTypeFilter = None,
          nodeScale = 2, edgeLenScale = 1, clusterGapScale = 12 / 10,
          graphComponent = None, selectedIEdge = None\<rparr>) = 1"
  by (simp add: selectFile_def watchSelectedFile_def saveFilterSettingsForCurrent_def
      ensureFilterSettingsFor_def ensureSettingsFor_def truthyStr_def Let_def)

section \<open>Properties of the payload normalisation\<close>

subsection \<open>The nested case\<close>

text \<open>
  Every node that the nested case pushes is an object with a string \<open>id\<close>, and every
  value stored in \<open>refMap\<close> or \<open>scheduleCompositeMap\<close> is the \<open>id\<close> of a pushed node.
\<close>

lemma getProp_withIdLabelType:
  "getProp (withIdLabelType n gid l ty) ''id'' = gid"
  "getProp (withIdLabelType n gid l ty) ''label'' = l"
  "getProp (withIdLabelType n gid l ty) ''type'' = ty"
  by (simp_all add: withIdLabelType_def update_conv')

lemma isObjectType_withIdLabelType: "isObjectType (withIdLabelType n gid l ty)"
  by (simp add: withIdLabelType_def)

lemma update_pres:
  assumes "\<forall>k g. map_of al k = Some g \<longrightarrow> P g" and "P v"
  shows "\<forall>k' g. map_of (AList.update k v al) k' = Some g \<longrightarrow> P g"
  using assms by (auto simp: update_conv' split: if_splits)

lemma nestedNode_inv:
  assumes step: "nestedNode numStr ty idx n (nodes, mp, sc) = Some (nodes', mp', sc')"
    and mp: "\<forall>k g. map_of mp k = Some g \<longrightarrow> JStr g \<in> (\<lambda>x. getProp x ''id'') ` set nodes"
    and sc: "\<forall>k g. map_of sc k = Some g \<longrightarrow> JStr g \<in> (\<lambda>x. getProp x ''id'') ` set nodes"
  shows "(\<forall>k g. map_of mp' k = Some g \<longrightarrow> JStr g \<in> (\<lambda>x. getProp x ''id'') ` set nodes') \<and>
         (\<forall>k g. map_of sc' k = Some g \<longrightarrow> JStr g \<in> (\<lambda>x. getProp x ''id'') ` set nodes') \<and>
         set nodes \<subseteq> set nodes' \<and> length nodes' = Suc (length nodes) \<and>
         (\<forall>x\<in>set nodes' - set nodes. isObjectType x \<and> isString (getProp x ''id''))"
proof -
  from step have nn: "\<not> isNullish n" by (auto simp: nestedNode_def split: if_splits)
  define lower where "lower = toLowerCase ty"
  define idVal where "idVal = (case find (\<lambda>k. toLowerCase k = lower @ ''_id'' \<or> toLowerCase k = lower @ ''id'')
                         (objectKeys n) of
                        Some k \<Rightarrow> if k \<noteq> [] then getProp n k else firstOf n [''id'', ''ID'', ''_id'']
                      | None \<Rightarrow> firstOf n [''id'', ''ID'', ''_id''])"
  define edgeKey where "edgeKey = (if \<not> isNullish idVal then jsString numStr idVal else decimal idx)"
  define gid where "gid = ty @ '':'' @ edgeKey"
  define l where "l = nullish_or (firstOf n [''name'', ''Title'', ''label'', ''IATA''])
                       (JStr (ty @ '' '' @ edgeKey))"
  define filmId where "filmId = firstOf n [''Film_ID'', ''film_id'', ''FilmId'', ''filmid'']"
  define cinemaId where "cinemaId = firstOf n [''Cinema_ID'', ''cinema_id'', ''CinemaId'', ''cinemaid'']"
  define dateVal where "dateVal = firstOf n [''Date'', ''date'']"
  define k1 where "k1 = ''film='' @ jsString numStr filmId @ ''|cinema='' @ jsString numStr cinemaId"
  define scn where "scn = (if lower = ''schedule'' \<and> \<not> isNullish filmId \<and> \<not> isNullish cinemaId
                       then (let s1 = AList.update k1 gid sc
                             in if \<not> isNullish dateVal
                                then AList.update (k1 @ ''|date='' @ jsString numStr dateVal) gid s1
                                else s1)
                       else sc)"
  have "nestedNode numStr ty idx n (nodes, mp, sc) =
      Some (nodes @ [withIdLabelType n (JStr gid) l (JStr ty)], AList.update edgeKey gid mp, scn)"
    using nn unfolding nestedNode_def scn_def k1_def dateVal_def cinemaId_def filmId_def l_def gid_def
      edgeKey_def idVal_def lower_def
    by (simp add: Let_def)
  with step have nodes': "nodes' = nodes @ [withIdLabelType n (JStr gid) l (JStr ty)]"
    and mp'0: "mp' = AList.update edgeKey gid mp" and sc'0: "sc' = scn" by simp_all
  from mp'0 have mp': "\<exists>k. mp' = AList.update k gid mp" by blast
  from sc'0 have sc': "sc' = sc \<or> (\<exists>k. sc' = AList.update k gid sc) \<or>
              (\<exists>k k'. sc' = AList.update k' gid (AList.update k gid sc))"
    unfolding scn_def Let_def by (cases "lower = ''schedule'' \<and> \<not> isNullish filmId \<and> \<not> isNullish cinemaId";
      cases "isNullish dateVal") auto
  have gid: "JStr gid \<in> (\<lambda>x. getProp x ''id'') ` set nodes'"
    unfolding nodes' by (simp add: getProp_withIdLabelType image_iff)
  have sub: "set nodes \<subseteq> set nodes'" unfolding nodes' by auto
  then have mono: "(\<lambda>x. getProp x ''id'') ` set nodes \<subseteq> (\<lambda>x. getProp x ''id'') ` set nodes'"
    by (rule image_mono)
  have old1: "\<forall>k g. map_of mp k = Some g \<longrightarrow> JStr g \<in> (\<lambda>x. getProp x ''id'') ` set nodes'"
    using mp mono by blast
  have old2: "\<forall>k g. map_of sc k = Some g \<longrightarrow> JStr g \<in> (\<lambda>x. getProp x ''id'') ` set nodes'"
    using sc mono by blast
  have a: "\<forall>k g. map_of mp' k = Some g \<longrightarrow> JStr g \<in> (\<lambda>x. getProp x ''id'') ` set nodes'"
    unfolding mp'0 by (rule update_pres[OF old1 gid])
  have b: "\<forall>k g. map_of sc' k = Some g \<longrightarrow> JStr g \<in> (\<lambda>x. getProp x ''id'') ` set nodes'"
    using sc' update_pres[OF old2 gid] update_pres[OF update_pres[OF old2 gid] gid] old2
    by (elim disjE exE) simp_all
  have c: "\<forall>x\<in>set nodes' - set nodes. isObjectType x \<and> isString (getProp x ''id'')"
    unfolding nodes' by (auto simp: getProp_withIdLabelType isObjectType_withIdLabelType)
  from a b sub c show ?thesis unfolding nodes' by simp
qed

lemma nestedNodes_inv:
  assumes "nestedNodes numStr ty idx items (nodes, mp, sc) = Some (nodes', mp', sc')"
    and "\<forall>k g. map_of mp k = Some g \<longrightarrow> JStr g \<in> (\<lambda>x. getProp x ''id'') ` set nodes"
    and "\<forall>k g. map_of sc k = Some g \<longrightarrow> JStr g \<in> (\<lambda>x. getProp x ''id'') ` set nodes"
  shows "(\<forall>k g. map_of mp' k = Some g \<longrightarrow> JStr g \<in> (\<lambda>x. getProp x ''id'') ` set nodes') \<and>
         (\<forall>k g. map_of sc' k = Some g \<longrightarrow> JStr g \<in> (\<lambda>x. getProp x ''id'') ` set nodes') \<and>
         set nodes \<subseteq> set nodes' \<and> length nodes' = length nodes + length items \<and>
         (\<forall>x\<in>set nodes' - set nodes. isObjectType x \<and> isString (getProp x ''id''))"
  using assms
proof (induction items arbitrary: idx nodes mp sc)
  case Nil
  then show ?case by simp
next
  case (Cons n rest)
  from Cons.prems(1) obtain nodes1 mp1 sc1 where
    s1: "nestedNode numStr ty (idx + 1) n (nodes, mp, sc) = Some (nodes1, mp1, sc1)"
    and s2: "nestedNodes numStr ty (idx + 1) rest (nodes1, mp1, sc1) = Some (nodes', mp', sc')"
    by (auto split: option.splits)
  note i1 = nestedNode_inv[OF s1 Cons.prems(2,3)]
  from i1 have a1: "\<forall>k g. map_of mp1 k = Some g \<longrightarrow> JStr g \<in> (\<lambda>x. getProp x ''id'') ` set nodes1"
    and b1: "\<forall>k g. map_of sc1 k = Some g \<longrightarrow> JStr g \<in> (\<lambda>x. getProp x ''id'') ` set nodes1"
    by blast+
  note i2 = Cons.IH[OF s2 a1 b1]
  from i1 i2 show ?case by (auto simp del: isObjectType.simps)
qed

lemma nestedTypes_inv:
  assumes "nestedTypes numStr kvs (nodes, m) = Some (nodes', m')"
    and "\<forall>ty mp k g. map_of (refMap m) ty = Some mp \<and> map_of mp k = Some g \<longrightarrow>
           JStr g \<in> (\<lambda>x. getProp x ''id'') ` set nodes"
    and "\<forall>k g. map_of (scheduleCompositeMap m) k = Some g \<longrightarrow>
           JStr g \<in> (\<lambda>x. getProp x ''id'') ` set nodes"
  shows "(\<forall>ty mp k g. map_of (refMap m') ty = Some mp \<and> map_of mp k = Some g \<longrightarrow>
           JStr g \<in> (\<lambda>x. getProp x ''id'') ` set nodes') \<and>
         (\<forall>k g. map_of (scheduleCompositeMap m') k = Some g \<longrightarrow>
           JStr g \<in> (\<lambda>x. getProp x ''id'') ` set nodes') \<and>
         set nodes \<subseteq> set nodes' \<and>
         (\<forall>x\<in>set nodes' - set nodes. isObjectType x \<and> isString (getProp x ''id''))"
  using assms
proof (induction kvs arbitrary: nodes m)
  case Nil
  then show ?case by simp
next
  case (Cons kv rest)
  obtain ty arr where kv: "kv = (ty, arr)" by (cases kv)
  show ?case
  proof (cases "\<exists>items. arr = JArr items")
    case False
    with Cons.prems(1) kv have "nestedTypes numStr rest (nodes, m) = Some (nodes', m')"
      by (cases arr) auto
    from Cons.IH[OF this Cons.prems(2,3)] show ?thesis .
  next
    case True
    then obtain items where arr: "arr = JArr items" by blast
    from Cons.prems(1) kv arr obtain nodes1 mp1 sc1 where
      s1: "nestedNodes numStr ty 0 items (nodes, [], scheduleCompositeMap m) = Some (nodes1, mp1, sc1)"
      and s2: "nestedTypes numStr rest
                 (nodes1, \<lparr>refMap = AList.update ty mp1 (refMap m), scheduleCompositeMap = sc1\<rparr>)
               = Some (nodes', m')"
      by (auto split: option.splits)
    have e: "\<forall>k g. map_of ([] :: (string \<times> string) list) k = Some g \<longrightarrow>
        JStr g \<in> (\<lambda>x. getProp x ''id'') ` set nodes" by simp
    note i1 = nestedNodes_inv[OF s1 e Cons.prems(3)]
    from i1 have sub: "set nodes \<subseteq> set nodes1" by blast
    then have mono: "(\<lambda>x. getProp x ''id'') ` set nodes \<subseteq> (\<lambda>x. getProp x ''id'') ` set nodes1"
      by (rule image_mono)
    have a: "\<forall>ty' mp k g.
        map_of (refMap \<lparr>refMap = AList.update ty mp1 (refMap m), scheduleCompositeMap = sc1\<rparr>) ty' = Some mp
          \<and> map_of mp k = Some g \<longrightarrow> JStr g \<in> (\<lambda>x. getProp x ''id'') ` set nodes1"
    proof (intro allI impI)
      fix ty' mp k g
      assume h: "map_of (refMap \<lparr>refMap = AList.update ty mp1 (refMap m), scheduleCompositeMap = sc1\<rparr>) ty' = Some mp
          \<and> map_of mp k = Some g"
      show "JStr g \<in> (\<lambda>x. getProp x ''id'') ` set nodes1"
      proof (cases "ty' = ty")
        case True
        with h have "mp = mp1" by (simp add: update_conv')
        with h i1 show ?thesis by blast
      next
        case False
        with h have "map_of (refMap m) ty' = Some mp" by (simp add: update_conv')
        with h Cons.prems(2) have "JStr g \<in> (\<lambda>x. getProp x ''id'') ` set nodes" by blast
        with mono show ?thesis by blast
      qed
    qed
    have b: "\<forall>k g. map_of (scheduleCompositeMap
               \<lparr>refMap = AList.update ty mp1 (refMap m), scheduleCompositeMap = sc1\<rparr>) k = Some g \<longrightarrow>
           JStr g \<in> (\<lambda>x. getProp x ''id'') ` set nodes1"
      using i1 by simp
    note i2 = Cons.IH[OF s2 a b]
    from i1 i2 show ?thesis by (auto simp del: isObjectType.simps)
  qed
qed




text \<open>
  A nested payload with one film, one cinema and one \<open>*_value\<close> edge between them, with
  integers printed in decimal.
\<close>

lemma films_example:
  "normalizeGraphPayload integerText
     (JObj [(''nodes'', JObj [(''Film'', JArr [JObj [(''Film_ID'', JNum (Num 7)), (''name'', JStr ''Alien'')]]),
                              (''Cinema'', JArr [JObj [(''IATA'', JStr ''c1'')]])]),
            (''edges'', JArr [JObj [(''source'', JStr ''Film''), (''target'', JStr ''Cinema''),
                                    (''source_value'', JNum (Num 7)), (''target_value'', JNum (Num 1)),
                                    (''relationship'', JStr ''SHOWN_AT'')]])]) =
   Some (JObj [(''id'', JUndefined),
               (''nodes'', JArr [JObj [(''Film_ID'', JNum (Num 7)), (''name'', JStr ''Alien''),
                                       (''id'', JStr ''Film:7''), (''label'', JStr ''Alien''),
                                       (''type'', JStr ''Film'')],
                                 JObj [(''IATA'', JStr ''c1''), (''id'', JStr ''Cinema:1''),
                                       (''label'', JStr ''c1''), (''type'', JStr ''Cinema'')]]),
               (''edges'', JArr [JObj [(''from'', JStr ''Film:7''), (''to'', JStr ''Cinema:1''),
                                       (''relationship'', JStr ''SHOWN_AT''),
                                       (''label'', JStr ''SHOWN_AT'')]])])"
  by code_simp



subsection \<open>The canonical shape\<close>

lemma canonical_nodes_iff:
  "isCanonicalNodeArray (JArr items) =
     list_all (\<lambda>item. isObjectType item \<and> isString (getProp item ''id'')) items"
  by (simp add: isCanonicalNodeArray_def)

lemma canonical_edges_iff:
  "isCanonicalEdgeArray (JArr items) =
     list_all (\<lambda>item. isObjectType item \<and>
                 (isString (getProp item ''source'') \<or> isString (getProp item ''from'')) \<and>
                 (isString (getProp item ''target'') \<or> isString (getProp item ''to''))) items"
  by (simp add: isCanonicalEdgeArray_def)

lemma normalize_canonical:
  assumes "\<not> isNullish raw" "isCanonicalNodeArray (getProp raw ''nodes'')"
    "isCanonicalEdgeArray (getProp raw ''edges'')"
  shows "normalizeGraphPayload numStr raw = Some raw"
  using assms by (simp add: normalizeGraphPayload_def Let_def)

text \<open>
  C1. A payload whose \<open>nodes\<close> field is an array of objects that each have a string
  \<open>id\<close>, and whose \<open>edges\<close> field is an array of objects that each have a string
  \<open>source\<close> or \<open>from\<close> and a string \<open>target\<close> or \<open>to\<close>, is returned unchanged by
  \<open>normalizeGraphPayload\<close>.
\<close>

theorem normalizeGraphPayload_canonical_unchanged:
  assumes "getProp raw ''nodes'' = JArr ns"
    and "\<forall>n\<in>set ns. \<exists>kvs s. n = JObj kvs \<and> map_of kvs ''id'' = Some (JStr s)"
    and "getProp raw ''edges'' = JArr es"
    and "\<forall>e\<in>set es. \<exists>kvs.
           e = JObj kvs \<and>
           ((\<exists>s. map_of kvs ''source'' = Some (JStr s)) \<or> (\<exists>s. map_of kvs ''from'' = Some (JStr s))) \<and>
           ((\<exists>s. map_of kvs ''target'' = Some (JStr s)) \<or> (\<exists>s. map_of kvs ''to'' = Some (JStr s)))"
  shows "normalizeGraphPayload numStr raw = Some raw"
proof (rule normalize_canonical)
  from assms(1) show "\<not> isNullish raw" by (cases raw) auto
  have "list_all (\<lambda>item. isObjectType item \<and> isString (getProp item ''id'')) ns"
    using assms(2) by (fastforce simp: list_all_iff)
  then show "isCanonicalNodeArray (getProp raw ''nodes'')"
    by (simp add: assms(1) canonical_nodes_iff)
  have "list_all (\<lambda>item. isObjectType item \<and>
                 (isString (getProp item ''source'') \<or> isString (getProp item ''from'')) \<and>
                 (isString (getProp item ''target'') \<or> isString (getProp item ''to''))) es"
    unfolding list_all_iff
  proof
    fix e assume "e \<in> set es"
    with assms(4) obtain kvs where kvs: "e = JObj kvs"
      "(\<exists>s. map_of kvs ''source'' = Some (JStr s)) \<or> (\<exists>s. map_of kvs ''from'' = Some (JStr s))"
      "(\<exists>s. map_of kvs ''target'' = Some (JStr s)) \<or> (\<exists>s. map_of kvs ''to'' = Some (JStr s))"
      by blast
    from kvs(2) have a: "isString (getProp e ''source'') \<or> isString (getProp e ''from'')"
      unfolding kvs(1) by auto
    from kvs(3) have b: "isString (getProp e ''target'') \<or> isString (getProp e ''to'')"
      unfolding kvs(1) by auto
    from a b kvs(1) show "isObjectType e \<and>
                 (isString (getProp e ''source'') \<or> isString (getProp e ''from'')) \<and>
                 (isString (getProp e ''target'') \<or> isString (getProp e ''to''))" by simp
  qed
  then show "isCanonicalEdgeArray (getProp raw ''edges'')"
    by (simp add: assms(3) canonical_edges_iff)
qed

theorem normalizeGraphPayload_canonical_unchanged_witness:
  "normalizeGraphPayload integerText
     (JObj [(''id'', JStr ''films''),
            (''nodes'', JArr [JObj [(''id'', JStr ''Film:1''), (''label'', JStr ''Alien'')],
                              JObj [(''id'', JStr ''c1'')]]),
            (''edges'', JArr [JObj [(''from'', JStr ''Film:1''), (''to'', JStr ''c1'')],
                              JObj [(''source'', JStr ''c1''), (''target'', JStr ''nowhere''),
                                    (''weight'', JNum (Num 3))]])]) =
   Some (JObj [(''id'', JStr ''films''),
            (''nodes'', JArr [JObj [(''id'', JStr ''Film:1''), (''label'', JStr ''Alien'')],
                              JObj [(''id'', JStr ''c1'')]]),
            (''edges'', JArr [JObj [(''from'', JStr ''Film:1''), (''to'', JStr ''c1'')],
                              JObj [(''source'', JStr ''c1''), (''target'', JStr ''nowhere''),
                                    (''weight'', JNum (Num 3))]])])"
  by (rule normalizeGraphPayload_canonical_unchanged
        [where ns = "[JObj [(''id'', JStr ''Film:1''), (''label'', JStr ''Alien'')],
                      JObj [(''id'', JStr ''c1'')]]"
           and es = "[JObj [(''from'', JStr ''Film:1''), (''to'', JStr ''c1'')],
                      JObj [(''source'', JStr ''c1''), (''target'', JStr ''nowhere''),
                            (''weight'', JNum (Num 3))]]"])
     simp_all

subsection \<open>The array case\<close>

text \<open>
  The node loop returns exactly when no element is \<open>null\<close> or \<open>undefined\<close>, and pushes
  one node per element; the edge loop returns exactly when no element is \<open>null\<close> or
  \<open>undefined\<close>, and emits an edge exactly for the elements whose two endpoints resolve.
\<close>

lemma caseANode_result:
  assumes "caseANode numStr idx n (nodes, m) = Some (nodes', m')"
  shows "\<not> isNullish n \<and>
         nodes' = nodes @ [withIdLabelType n (JStr (caseAType numStr n @ '':'' @ caseAIdKey numStr idx n))
                             (JStr (caseALabel numStr idx n)) (JStr (caseAType numStr n))]"
  using assms by (auto simp: caseANode_def Let_def split: if_splits)

lemma caseANode_defined:
  "\<not> isNullish n \<Longrightarrow> \<exists>r. caseANode numStr idx n acc = Some r"
  by (simp add: caseANode_def Let_def)

lemma caseANodes_result:
  assumes "caseANodes numStr idx items (nodes, m) = Some (nodes', m')"
  shows "list_all (\<lambda>n. \<not> isNullish n) items \<and>
         nodes' = nodes @ map (\<lambda>(i, n). withIdLabelType n
                     (JStr (caseAType numStr n @ '':'' @ caseAIdKey numStr i n))
                     (JStr (caseALabel numStr i n)) (JStr (caseAType numStr n)))
                   (enumerate (idx + 1) items)"
  using assms
proof (induction items arbitrary: idx nodes m)
  case Nil
  then show ?case by simp
next
  case (Cons n rest)
  from Cons.prems obtain nodes1 m1 where
    s1: "caseANode numStr (idx + 1) n (nodes, m) = Some (nodes1, m1)"
    and s2: "caseANodes numStr (idx + 1) rest (nodes1, m1) = Some (nodes', m')"
    by (auto split: option.splits)
  from caseANode_result[OF s1] Cons.IH[OF s2] show ?case by simp
qed

lemma caseANodes_defined:
  "list_all (\<lambda>n. \<not> isNullish n) items \<Longrightarrow> \<exists>r. caseANodes numStr idx items acc = Some r"
proof (induction items arbitrary: idx acc)
  case Nil
  then show ?case by simp
next
  case (Cons n rest)
  then obtain r where r: "caseANode numStr (idx + 1) n acc = Some r"
    using caseANode_defined[of n numStr "idx + 1" acc] by auto
  with Cons show ?case by simp
qed

lemma caseAEdge_result:
  assumes "caseAEdge numStr m e = Some (Some edge)"
  shows "\<exists>f d rel. edge = JObj [(''from'', JStr f), (''to'', JStr d),
                                (''relationship'', JStr rel), (''label'', JStr rel)] \<and>
           f \<noteq> [] \<and> d \<noteq> [] \<and>
           rel = toStr numStr (preferKeys e [''relationship'', ''label'', ''type'']) \<and>
           caseAEndpoints numStr m e = (Some f, Some d)"
  using assms
  by (cases "caseAEndpoints numStr m e")
     (auto simp: caseAEdge_def Let_def truthyStr_def split: if_splits option.splits)

lemma caseAEdge_dropped:
  assumes "caseAEdge numStr m e = Some None"
  shows "\<not> (truthyStr (fst (caseAEndpoints numStr m e)) \<and> truthyStr (snd (caseAEndpoints numStr m e)))"
  using assms by (auto simp: caseAEdge_def Let_def split: if_splits)

lemma caseAEdge_defined: "\<not> isNullish e \<Longrightarrow> \<exists>r. caseAEdge numStr m e = Some r"
  by (simp add: caseAEdge_def Let_def)

lemma caseAEdges_result:
  assumes "caseAEdges numStr m es = Some out"
  shows "list_all (\<lambda>e. \<not> isNullish e) es \<and>
         out = List.map_filter (\<lambda>e. the (caseAEdge numStr m e)) es"
  using assms
proof (induction es arbitrary: out)
  case Nil
  then show ?case by (simp add: List.map_filter_simps)
next
  case (Cons e rest)
  from Cons.prems obtain r out' where
    s1: "caseAEdge numStr m e = Some r" and s2: "caseAEdges numStr m rest = Some out'"
    and o: "out = (case r of Some edge \<Rightarrow> [edge] | None \<Rightarrow> []) @ out'"
    by (auto split: option.splits)
  from s1 have "\<not> isNullish e" by (auto simp: caseAEdge_def split: if_splits)
  with Cons.IH[OF s2] s1 o show ?case
    by (cases r) (simp_all add: List.map_filter_simps)
qed

lemma caseAEdges_defined:
  "list_all (\<lambda>e. \<not> isNullish e) es \<Longrightarrow> \<exists>r. caseAEdges numStr m es = Some r"
proof (induction es)
  case Nil
  then show ?case by simp
next
  case (Cons e rest)
  then obtain r where "caseAEdge numStr m e = Some r" using caseAEdge_defined[of e numStr m] by auto
  with Cons show ?case by auto
qed

lemma caseAType_nonempty: "caseAType numStr n \<noteq> []"
  by (simp add: caseAType_def Let_def)

lemma caseALabel_nonempty: "caseALabel numStr idx n \<noteq> []"
  by (simp add: caseALabel_def Let_def caseAType_nonempty)

lemma caseAType_default:
  "toStr numStr (preferKeys n [''type'', ''Type'', ''nodeType'', ''labelType'', ''label'', ''Label'']) = [] \<Longrightarrow>
   caseAType numStr n = ''Node''"
  by (simp add: caseAType_def)

lemma caseAIdKey_default:
  "isNullish (findIdKey n (caseAType numStr n)) \<Longrightarrow> caseAIdKey numStr idx n = decimal idx"
  by (simp add: caseAIdKey_def)

text \<open>
  The array case on a payload that is not canonical, whose nodes are not \<open>null\<close> and whose
  \<open>edges\<close>, when an array, has no \<open>null\<close> element: the call returns, there is one output
  node per input element, with id \<open>type:key\<close>, a non-empty label and the type, and every
  emitted edge has non-empty \<open>from\<close> and \<open>to\<close> and the same string as \<open>relationship\<close>
  and \<open>label\<close>; the other edges are dropped.
\<close>

lemma normalizeGraphPayload_array_case:
  assumes nodes: "getProp raw ''nodes'' = JArr items"
    and nc: "\<not> (isCanonicalNodeArray (JArr items) \<and> isCanonicalEdgeArray (getProp raw ''edges''))"
    and ni: "list_all (\<lambda>n. \<not> isNullish n) items"
    and ne: "\<And>es. getProp raw ''edges'' = JArr es \<Longrightarrow> list_all (\<lambda>e. \<not> isNullish e) es"
  shows "\<exists>nodes m edges.
     normalizeGraphPayload numStr raw =
       Some (JObj [(''id'', getProp raw ''id''), (''nodes'', JArr nodes), (''edges'', JArr edges)]) \<and>
     caseANodes numStr 0 items
       ([], \<lparr>idToGlobal = [], typeToMap = [], plainMap = [], hasConflict = []\<rparr>) = Some (nodes, m) \<and>
     nodes = map (\<lambda>(i, n). withIdLabelType n
                     (JStr (caseAType numStr n @ '':'' @ caseAIdKey numStr i n))
                     (JStr (caseALabel numStr i n)) (JStr (caseAType numStr n)))
                 (enumerate 1 items) \<and>
     edges = (case getProp raw ''edges'' of
                JArr es \<Rightarrow> List.map_filter (\<lambda>e. the (caseAEdge numStr m e)) es
              | _ \<Rightarrow> []) \<and>
     (\<forall>edge\<in>set edges. \<exists>f d rel.
        edge = JObj [(''from'', JStr f), (''to'', JStr d),
                     (''relationship'', JStr rel), (''label'', JStr rel)] \<and> f \<noteq> [] \<and> d \<noteq> [])"
proof -
  from nodes have nn: "\<not> isNullish raw" by (cases raw) auto
  from caseANodes_defined[OF ni] obtain ns m where
    n: "caseANodes numStr 0 items
          ([], \<lparr>idToGlobal = [], typeToMap = [], plainMap = [], hasConflict = []\<rparr>) = Some (ns, m)"
    by fastforce
  from caseANodes_result[OF n]
  have ns: "ns = map (\<lambda>(i, n). withIdLabelType n
                     (JStr (caseAType numStr n @ '':'' @ caseAIdKey numStr i n))
                     (JStr (caseALabel numStr i n)) (JStr (caseAType numStr n)))
                 (enumerate 1 items)" by simp
  define edges where "edges = (case getProp raw ''edges'' of
                JArr es \<Rightarrow> List.map_filter (\<lambda>e. the (caseAEdge numStr m e)) es
              | _ \<Rightarrow> [])"
  have e: "(case getProp raw ''edges'' of JArr es \<Rightarrow> caseAEdges numStr m es | _ \<Rightarrow> Some []) = Some edges"
  proof (cases "\<exists>es. getProp raw ''edges'' = JArr es")
    case True
    then obtain es where es: "getProp raw ''edges'' = JArr es" by blast
    from caseAEdges_defined[OF ne[OF es]] obtain r where r: "caseAEdges numStr m es = Some r" by blast
    from caseAEdges_result[OF r] r es show ?thesis by (simp add: edges_def)
  next
    case False
    then show ?thesis by (cases "getProp raw ''edges''") (auto simp: edges_def)
  qed
  from n e have ca: "caseA numStr raw items (getProp raw ''edges'') =
      Some (JObj [(''id'', getProp raw ''id''), (''nodes'', JArr ns), (''edges'', JArr edges)])"
    by (simp add: caseA_def)
  from nn nodes nc ca have run: "normalizeGraphPayload numStr raw =
      Some (JObj [(''id'', getProp raw ''id''), (''nodes'', JArr ns), (''edges'', JArr edges)])"
    by (auto simp: normalizeGraphPayload_def Let_def)
  have form: "\<forall>edge\<in>set edges. \<exists>f d rel.
        edge = JObj [(''from'', JStr f), (''to'', JStr d),
                     (''relationship'', JStr rel), (''label'', JStr rel)] \<and> f \<noteq> [] \<and> d \<noteq> []"
  proof
    fix edge assume ed: "edge \<in> set edges"
    then obtain es where es: "getProp raw ''edges'' = JArr es"
      by (cases "getProp raw ''edges''") (auto simp: edges_def)
    with ed obtain e0 where e0: "e0 \<in> set es" "the (caseAEdge numStr m e0) = Some edge"
      by (auto simp: edges_def List.map_filter_def)
    from ne[OF es] e0(1) have "\<not> isNullish e0" by (simp add: list_all_iff)
    from caseAEdge_defined[OF this, of numStr m] e0(2) have "caseAEdge numStr m e0 = Some (Some edge)"
      by auto
    from caseAEdge_result[OF this] show "\<exists>f d rel.
        edge = JObj [(''from'', JStr f), (''to'', JStr d),
                     (''relationship'', JStr rel), (''label'', JStr rel)] \<and> f \<noteq> [] \<and> d \<noteq> []"
      by blast
  qed
  from run n ns form show ?thesis unfolding edges_def by blast
qed

text \<open>
  The nested case skips an element of \<open>edges\<close> that is \<open>null\<close>: each of its strategies
  starts with \<open>e &&\<close>.
\<close>

lemma nested_null_edge_skipped:
  "normalizeGraphPayload integerText
     (JObj [(''nodes'', JObj [(''T'', JArr [JObj [(''name'', JStr ''A'')]])]), (''edges'', JArr [JNull])]) =
   Some (JObj [(''id'', JUndefined),
               (''nodes'', JArr [JObj [(''name'', JStr ''A''), (''id'', JStr ''T:1''),
                                       (''label'', JStr ''A''), (''type'', JStr ''T'')]]),
               (''edges'', JArr [])])"
  by code_simp

text \<open>
  C2. The array case does not drop an element of \<open>edges\<close> that is \<open>null\<close>: the edge loop
  reads \<open>e.mappings\<close> without the guard, which throws. So for every payload whose \<open>nodes\<close>
  field is an array and whose \<open>edges\<close> array has a \<open>null\<close> element the call does not
  return: no normalized node and no edge list is produced.
\<close>

theorem normalizeGraphPayload_null_edge_throws:
  assumes nodes: "getProp raw ''nodes'' = JArr items"
    and edges: "getProp raw ''edges'' = JArr es"
    and null: "JNull \<in> set es"
  shows "normalizeGraphPayload numStr raw = None"
proof (rule ccontr)
  assume "normalizeGraphPayload numStr raw \<noteq> None"
  then obtain out where out: "normalizeGraphPayload numStr raw = Some out" by blast
  from nodes have nn: "\<not> isNullish raw" by (cases raw) auto
  from null have nc: "\<not> isCanonicalEdgeArray (JArr es)"
    unfolding canonical_edges_iff list_all_iff
    by (auto intro!: bexI [of _ JNull])
  from out nn nodes edges nc have "caseA numStr raw items (JArr es) = Some out"
    by (auto simp: normalizeGraphPayload_def Let_def split: if_splits)
  then obtain m edges where "caseAEdges numStr m es = Some edges"
    by (auto simp: caseA_def split: option.splits)
  from caseAEdges_result[OF this] have "list_all (\<lambda>e. \<not> isNullish e) es" by simp
  with null show False by (auto simp: list_all_iff)
qed

text \<open>The payload with the single node \<open>{name: 'A'}\<close> and the edges \<open>[null]\<close>.\<close>

theorem normalizeGraphPayload_null_edge_throws_witness:
  "normalizeGraphPayload integerText
     (JObj [(''nodes'', JArr [JObj [(''name'', JStr ''A'')]]), (''edges'', JArr [JNull])]) = None"
  by (rule normalizeGraphPayload_null_edge_throws
        [where items = "[JObj [(''name'', JStr ''A'')]]" and es = "[JNull]"])
     simp_all

subsection \<open>Idempotence\<close>

text \<open>
  The output of the array case is canonical, and so are the nodes of the output of the
  nested case.
\<close>

lemma caseA_output_canonical:
  assumes "caseA numStr raw items edgesRaw = Some out"
  shows "\<not> isNullish out \<and> isCanonicalNodeArray (getProp out ''nodes'') \<and>
         isCanonicalEdgeArray (getProp out ''edges'')"
proof -
  from assms obtain nodes m edges where
    n: "caseANodes numStr 0 items
          ([], \<lparr>idToGlobal = [], typeToMap = [], plainMap = [], hasConflict = []\<rparr>) = Some (nodes, m)"
    and e: "(case edgesRaw of JArr es \<Rightarrow> caseAEdges numStr m es | _ \<Rightarrow> Some []) = Some edges"
    and o: "out = JObj [(''id'', getProp raw ''id''), (''nodes'', JArr nodes), (''edges'', JArr edges)]"
    by (auto simp: caseA_def split: option.splits)
  from caseANodes_result[OF n]
  have cn: "list_all (\<lambda>item. isObjectType item \<and> isString (getProp item ''id'')) nodes"
    by (auto simp: list_all_iff getProp_withIdLabelType isObjectType_withIdLabelType)
  have ce: "list_all (\<lambda>item. isObjectType item \<and>
                 (isString (getProp item ''source'') \<or> isString (getProp item ''from'')) \<and>
                 (isString (getProp item ''target'') \<or> isString (getProp item ''to''))) edges"
  proof (cases "\<exists>es. edgesRaw = JArr es")
    case False
    with e have "edges = []" by (cases edgesRaw) auto
    then show ?thesis by simp
  next
    case True
    then obtain es where es: "edgesRaw = JArr es" by blast
    with e have "caseAEdges numStr m es = Some edges" by simp
    from caseAEdges_result[OF this] have ed: "edges = List.map_filter (\<lambda>e. the (caseAEdge numStr m e)) es"
      and nn: "list_all (\<lambda>e. \<not> isNullish e) es" by auto
    show ?thesis unfolding list_all_iff
    proof
      fix edge assume "edge \<in> set edges"
      then obtain e0 where e0: "e0 \<in> set es" "the (caseAEdge numStr m e0) = Some edge"
        unfolding ed by (auto simp: List.map_filter_def)
      from nn e0(1) have "\<not> isNullish e0" by (simp add: list_all_iff)
      from caseAEdge_defined[OF this, of numStr m] e0(2) have "caseAEdge numStr m e0 = Some (Some edge)"
        by auto
      from caseAEdge_result[OF this] show "isObjectType edge \<and>
                 (isString (getProp edge ''source'') \<or> isString (getProp edge ''from'')) \<and>
                 (isString (getProp edge ''target'') \<or> isString (getProp edge ''to''))"
        by auto
    qed
  qed
  from cn ce show ?thesis unfolding o by (simp add: canonical_nodes_iff canonical_edges_iff)
qed

lemma nested_output_nodes_canonical:
  assumes "nested numStr raw kvs edgesRaw = Some out"
  shows "\<not> isNullish out \<and> isCanonicalNodeArray (getProp out ''nodes'')"
proof -
  from assms obtain nodes m where
    t: "nestedTypes numStr kvs ([], \<lparr>refMap = [], scheduleCompositeMap = []\<rparr>) = Some (nodes, m)"
    and o: "getProp out ''nodes'' = JArr nodes" "\<not> isNullish out"
    by (auto simp: nested_def split: option.splits)
  from nestedTypes_inv[OF t]
  have "\<forall>x\<in>set nodes - set []. isObjectType x \<and> isString (getProp x ''id'')" by simp
  then have "list_all (\<lambda>item. isObjectType item \<and> isString (getProp item ''id'')) nodes"
    by (simp add: list_all_iff)
  with o show ?thesis by (simp add: canonical_nodes_iff)
qed

text \<open>
  C8. Whenever \<open>normalizeGraphPayload\<close> returns and either the \<open>nodes\<close> field of the
  input is not a plain object (so the nested case is not taken) or the edges of the output are
  canonical (each an object with a string \<open>source\<close> or \<open>from\<close> and a string \<open>target\<close>
  or \<open>to\<close>), applying \<open>normalizeGraphPayload\<close> to the output returns the output
  unchanged.
\<close>

theorem normalizeGraphPayload_idempotent_on_canonical_output:
  assumes out: "normalizeGraphPayload numStr raw = Some out"
    and c: "(\<forall>kvs. getProp raw ''nodes'' \<noteq> JObj kvs) \<or> isCanonicalEdgeArray (getProp out ''edges'')"
  shows "normalizeGraphPayload numStr out = Some out"
proof -
  from out have nn: "\<not> isNullish raw" by (auto simp: normalizeGraphPayload_def split: if_splits)
  show ?thesis
  proof (cases "isCanonicalNodeArray (getProp raw ''nodes'') \<and> isCanonicalEdgeArray (getProp raw ''edges'')")
    case True
    with out nn have "out = raw" by (simp add: normalizeGraphPayload_def Let_def)
    with out show ?thesis by simp
  next
    case False
    show ?thesis
    proof (cases "getProp raw ''nodes''")
      case (JArr items)
      with out nn False have "caseA numStr raw items (getProp raw ''edges'') = Some out"
        by (auto simp: normalizeGraphPayload_def Let_def split: if_splits)
      from caseA_output_canonical[OF this] show ?thesis by (simp add: normalize_canonical)
    next
      case (JObj kvs)
      with out nn False have "nested numStr raw kvs (getProp raw ''edges'') = Some out"
        by (auto simp: normalizeGraphPayload_def Let_def split: if_splits)
      from nested_output_nodes_canonical[OF this] c JObj show ?thesis
        by (simp add: normalize_canonical)
    next
      case JUndefined
      with out nn False have "out = raw"
        by (auto simp: normalizeGraphPayload_def Let_def split: if_splits)
      with out show ?thesis by simp
    next
      case JNull
      with out nn False have "out = raw"
        by (auto simp: normalizeGraphPayload_def Let_def split: if_splits)
      with out show ?thesis by simp
    next
      case (JBool b)
      with out nn False have "out = raw"
        by (auto simp: normalizeGraphPayload_def Let_def split: if_splits)
      with out show ?thesis by simp
    next
      case (JNum x)
      with out nn False have "out = raw"
        by (auto simp: normalizeGraphPayload_def Let_def split: if_splits)
      with out show ?thesis by simp
    next
      case (JStr x)
      with out nn False have "out = raw"
        by (auto simp: normalizeGraphPayload_def Let_def split: if_splits)
      with out show ?thesis by simp
    qed
  qed
qed

theorem normalizeGraphPayload_idempotent_on_canonical_output_witness:
  "normalizeGraphPayload integerText
     (JObj [(''id'', JUndefined),
               (''nodes'', JArr [JObj [(''Film_ID'', JNum (Num 7)), (''name'', JStr ''Alien''),
                                       (''id'', JStr ''Film:7''), (''label'', JStr ''Alien''),
                                       (''type'', JStr ''Film'')],
                                 JObj [(''IATA'', JStr ''c1''), (''id'', JStr ''Cinema:1''),
                                       (''label'', JStr ''c1''), (''type'', JStr ''Cinema'')]]),
               (''edges'', JArr [JObj [(''from'', JStr ''Film:7''), (''to'', JStr ''Cinema:1''),
                                       (''relationship'', JStr ''SHOWN_AT''),
                                       (''label'', JStr ''SHOWN_AT'')]])]) =
   Some (JObj [(''id'', JUndefined),
               (''nodes'', JArr [JObj [(''Film_ID'', JNum (Num 7)), (''name'', JStr ''Alien''),
                                       (''id'', JStr ''Film:7''), (''label'', JStr ''Alien''),
                                       (''type'', JStr ''Film'')],
                                 JObj [(''IATA'', JStr ''c1''), (''id'', JStr ''Cinema:1''),
                                       (''label'', JStr ''c1''), (''type'', JStr ''Cinema'')]]),
               (''edges'', JArr [JObj [(''from'', JStr ''Film:7''), (''to'', JStr ''Cinema:1''),
                                       (''relationship'', JStr ''SHOWN_AT''),
                                       (''label'', JStr ''SHOWN_AT'')]])])"
  by (rule normalizeGraphPayload_idempotent_on_canonical_output [OF films_example])
     (simp add: isCanonicalEdgeArray_def)

text \<open>
  Without that condition the second application can change the output. The nested case
  passes an edge that has truthy
  \<open>from\<close> and \<open>to\<close> through as it is; with the numbers 1 and 2 as endpoints the output
  has canonical nodes and an edge that is not canonical, so the second application takes the
  array case, which renames the node \<open>T:1\<close> to \<open>T:T:1\<close> and drops the edge.
\<close>

theorem normalizeGraphPayload_idempotence_counterexample:
  "normalizeGraphPayload integerText
     (JObj [(''nodes'', JObj [(''T'', JArr [JObj []])]),
            (''edges'', JArr [JObj [(''from'', JNum (Num 1)), (''to'', JNum (Num 2))]])]) =
   Some (JObj [(''id'', JUndefined),
               (''nodes'', JArr [JObj [(''id'', JStr ''T:1''), (''label'', JStr ''T 1''),
                                       (''type'', JStr ''T'')]]),
               (''edges'', JArr [JObj [(''from'', JNum (Num 1)), (''to'', JNum (Num 2))]])]) \<and>
   normalizeGraphPayload integerText
     (JObj [(''id'', JUndefined),
            (''nodes'', JArr [JObj [(''id'', JStr ''T:1''), (''label'', JStr ''T 1''),
                                    (''type'', JStr ''T'')]]),
            (''edges'', JArr [JObj [(''from'', JNum (Num 1)), (''to'', JNum (Num 2))]])]) =
   Some (JObj [(''id'', JUndefined),
               (''nodes'', JArr [JObj [(''id'', JStr ''T:T:1''), (''label'', JStr ''T 1''),
                                       (''type'', JStr ''T'')]]),
               (''edges'', JArr [])]) \<and>
   JObj [(''id'', JUndefined),
         (''nodes'', JArr [JObj [(''id'', JStr ''T:T:1''), (''label'', JStr ''T 1''),
                                 (''type'', JStr ''T'')]]),
         (''edges'', JArr [])] \<noteq>
   JObj [(''id'', JUndefined),
         (''nodes'', JArr [JObj [(''id'', JStr ''T:1''), (''label'', JStr ''T 1''),
                                 (''type'', JStr ''T'')]]),
         (''edges'', JArr [JObj [(''from'', JNum (Num 1)), (''to'', JNum (Num 2))]])]"
  by code_simp

end
